theory Spec2Isabelle
  imports Main "HOL-Library.Sublist" "HOL-Library.Char_ord" "HOL-Library.List_Lexorder"
    "HOL-Library.Multiset" "HOL-Library.AList"
begin

section \<open>The site build script \<open>.github/workflows/build.py\<close>\<close>

text \<open>
  The script discovers team documents below \<open>Team_Projects\<close>, converts Jupytext
  \<open>.py\<close> files to Quarto markdown, writes \<open>_quarto.yml\<close> and \<open>index.qmd\<close> and runs
  \<open>quarto render\<close>. The embedding below follows \<open>build.py\<close> function by function.

  Conventions of the embedding:
  \<^item> a Python \<open>str\<close> is a \<open>string\<close>; one \<open>char\<close> stands for one character, so the
    texts are taken to be ASCII (the only non-ASCII character of the script, the em
    dash, is written as its UTF-8 bytes);
  \<^item> a \<open>Path\<close> is the list of its components below the filesystem root;
  \<^item> the filesystem is a tree of nodes, passed and returned explicitly;
  \<^item> \<open>print\<close> appends one entry to the console, a list of printed texts;
  \<^item> an exception is a value of type \<open>error\<close>, the left injection of a sum.
\<close>

subsection \<open>Python strings\<close>

text \<open>\<open>sub in s\<close> on strings.\<close>

fun contains :: "string \<Rightarrow> string \<Rightarrow> bool" where
  "contains sub [] = (sub = [])"
| "contains sub (c # cs) = (prefix sub (c # cs) \<or> contains sub cs)"

text \<open>\<open>s.strip()\<close> removes the whitespace at both ends; the whitespace characters of
  ASCII are the codes 9 to 13, 28 to 31 and 32.\<close>

definition is_space :: "char \<Rightarrow> bool" where
  "is_space c = (let k = (of_char c :: nat) in (9 \<le> k \<and> k \<le> 13) \<or> (28 \<le> k \<and> k \<le> 32))"

definition strip :: "string \<Rightarrow> string" where
  "strip s = rev (dropWhile is_space (rev (dropWhile is_space s)))"

text \<open>\<open>s.split("\n")\<close> and \<open>sep.join(xs)\<close>.\<close>

fun split_nl :: "string \<Rightarrow> string list" where
  "split_nl [] = [[]]"
| "split_nl (c # cs) =
     (if c = CHR 0x0A then [] # split_nl cs
      else (case split_nl cs of l # ls \<Rightarrow> (c # l) # ls | [] \<Rightarrow> [[c]]))"

fun join :: "string \<Rightarrow> string list \<Rightarrow> string" where
  "join sep [] = []"
| "join sep [x] = x"
| "join sep (x # y # ys) = x @ sep @ join sep (y # ys)"

text \<open>\<open>s.find(sub)\<close> (\<open>-1\<close> when absent), \<open>s.replace(old, new)\<close> and the slice
  \<open>s[i:j]\<close> with Python's treatment of negative and too large indices.\<close>

fun str_find :: "string \<Rightarrow> string \<Rightarrow> int" where
  "str_find [] sub = (if sub = [] then 0 else - 1)"
| "str_find (c # cs) sub =
     (if prefix sub (c # cs) then 0
      else (let i = str_find cs sub in if i < 0 then - 1 else i + 1))"

fun replace_from :: "string \<Rightarrow> string \<Rightarrow> nat \<Rightarrow> string \<Rightarrow> string" where
  "replace_from old new k [] = []"
| "replace_from old new (Suc k) (c # cs) = replace_from old new k cs"
| "replace_from old new 0 (c # cs) =
     (if prefix old (c # cs) then new @ replace_from old new (length old - 1) cs
      else c # replace_from old new 0 cs)"

definition str_replace :: "string \<Rightarrow> string \<Rightarrow> string \<Rightarrow> string" where
  "str_replace s old new =
     (if old = [] then new @ concat (map (\<lambda>c. c # new) s) else replace_from old new 0 s)"

definition clamp_index :: "nat \<Rightarrow> int \<Rightarrow> nat" where
  "clamp_index n i = (if i < 0 then nat (max 0 (int n + i)) else min n (nat i))"

definition slice :: "string \<Rightarrow> int \<Rightarrow> int \<Rightarrow> string" where
  "slice s i j =
     (let a = clamp_index (length s) i; b = clamp_index (length s) j in take (b - a) (drop a s))"

text \<open>\<open>str(n)\<close> for an integer.\<close>

fun str_nat :: "nat \<Rightarrow> string" where
  "str_nat n =
     (if n < 10 then [char_of (48 + n)] else str_nat (n div 10) @ [char_of (48 + n mod 10)])"

definition str_int :: "int \<Rightarrow> string" where
  "str_int i = (if i < 0 then ''-'' @ str_nat (nat (- i)) else str_nat (nat i))"

text \<open>\<open>s.startswith(p)\<close> is \<open>prefix p s\<close>; \<open>s[:n]\<close> is \<open>take n s\<close> and \<open>s[n:]\<close> is
  \<open>drop n s\<close> for a literal \<open>n \<ge> 0\<close>.\<close>

subsection \<open>Paths and the filesystem\<close>

type_synonym path = "string list"

datatype error =
  FileNotFoundError | NotADirectoryError | IsADirectoryError | UnicodeDecodeError | ValueError

text \<open>A node is a text file, a file whose bytes are not valid UTF-8 (reading it as
  text raises), or a directory with its listing in the order the system returns it.\<close>

datatype node = File string | Binary | Dir "(string \<times> node) list"

fun lookup :: "node \<Rightarrow> path \<Rightarrow> node option" where
  "lookup n [] = Some n"
| "lookup (Dir es) (c # cs) = (case map_of es c of None \<Rightarrow> None | Some n \<Rightarrow> lookup n cs)"
| "lookup _ (c # cs) = None"

definition exists :: "node \<Rightarrow> path \<Rightarrow> bool" where
  "exists fs p = (lookup fs p \<noteq> None)"

definition is_dir :: "node \<Rightarrow> path \<Rightarrow> bool" where
  "is_dir fs p = (case lookup fs p of Some (Dir _) \<Rightarrow> True | _ \<Rightarrow> False)"

definition read_text :: "node \<Rightarrow> path \<Rightarrow> error + string" where
  "read_text fs p =
     (case lookup fs p of
        None \<Rightarrow> Inl FileNotFoundError
      | Some (File s) \<Rightarrow> Inr s
      | Some Binary \<Rightarrow> Inl UnicodeDecodeError
      | Some (Dir _) \<Rightarrow> Inl IsADirectoryError)"

text \<open>\<open>Path.name\<close>, \<open>Path.parent\<close> and \<open>Path.stem\<close>. The stem follows pathlib: with \<open>i\<close>
  the index of the last dot of the name, the stem is \<open>name[:i]\<close> when
  \<open>0 < i < len(name) - 1\<close> and the whole name otherwise.\<close>

definition name_of :: "path \<Rightarrow> string" where
  "name_of p = (if p = [] then [] else last p)"

definition parent_of :: "path \<Rightarrow> path" where
  "parent_of p = butlast p"

definition stem_of_name :: "string \<Rightarrow> string" where
  "stem_of_name n =
     (if CHR ''.'' \<notin> set n then n
      else let t = takeWhile (\<lambda>c. c \<noteq> CHR ''.'') (rev n);
               i = length n - length t - 1
           in if 0 < i \<and> t \<noteq> [] then take i n else n)"

definition stem_of :: "path \<Rightarrow> string" where
  "stem_of p = stem_of_name (name_of p)"

text \<open>\<open>Path.iterdir\<close> lists the children of a directory; \<open>Path.glob("*" + ext)\<close> yields
  the children whose name ends with \<open>ext\<close> (pathlib does not treat names with a leading
  dot specially), whatever kind of node they are, and nothing below a non-directory.\<close>

definition iterdir :: "node \<Rightarrow> path \<Rightarrow> error + path list" where
  "iterdir fs d =
     (case lookup fs d of
        None \<Rightarrow> Inl FileNotFoundError
      | Some (Dir es) \<Rightarrow> Inr (map (\<lambda>e. d @ [fst e]) es)
      | Some _ \<Rightarrow> Inl NotADirectoryError)"

definition children :: "node \<Rightarrow> path \<Rightarrow> path list" where
  "children fs d = (case iterdir fs d of Inr ps \<Rightarrow> ps | Inl _ \<Rightarrow> [])"

definition glob :: "node \<Rightarrow> path \<Rightarrow> string \<Rightarrow> path list" where
  "glob fs d ext = filter (\<lambda>p. suffix ext (name_of p)) (children fs d)"

text \<open>\<open>Path.write_text\<close> replaces a file or creates it in an existing directory; it
  raises when the target is a directory or when its parent is missing or is a file.\<close>

fun write_node :: "node \<Rightarrow> path \<Rightarrow> string \<Rightarrow> error + node" where
  "write_node n [] s = (case n of Dir _ \<Rightarrow> Inl IsADirectoryError | _ \<Rightarrow> Inr (File s))"
| "write_node (Dir es) (c # cs) s =
     (case map_of es c of
        None \<Rightarrow> if cs = [] then Inr (Dir (es @ [(c, File s)])) else Inl FileNotFoundError
      | Some n \<Rightarrow>
          (case write_node n cs s of
             Inl e \<Rightarrow> Inl e
           | Inr n' \<Rightarrow> Inr (Dir (AList.update c n' es))))"
| "write_node _ (c # cs) s = Inl NotADirectoryError"

definition write_text :: "node \<Rightarrow> path \<Rightarrow> string \<Rightarrow> error + node" where
  "write_text fs p s = write_node fs p s"

text \<open>\<open>str(path)\<close> of an absolute path, and \<open>str(e)\<close> of an exception (abbreviated to
  the message of its class).\<close>

definition str_path :: "path \<Rightarrow> string" where
  "str_path p = ''/'' @ join ''/'' p"

fun str_error :: "error \<Rightarrow> string" where
  "str_error FileNotFoundError = ''No such file or directory''"
| "str_error NotADirectoryError = ''Not a directory''"
| "str_error IsADirectoryError = ''Is a directory''"
| "str_error UnicodeDecodeError = ''invalid start byte''"
| "str_error ValueError = ''is not in the subpath''"

text \<open>\<open>p.relative_to(root)\<close> raises \<open>ValueError\<close> when \<open>p\<close> is not below \<open>root\<close>;
  \<open>str\<close> of a relative path joins its components.\<close>

definition relative_to :: "path \<Rightarrow> path \<Rightarrow> error + path" where
  "relative_to p root = (if prefix root p then Inr (drop (length root) p) else Inl ValueError)"

definition str_rel :: "path \<Rightarrow> string" where
  "str_rel p = (if p = [] then ''.'' else join ''/'' p)"

subsection \<open>The state of a run\<close>

text \<open>The filesystem and the texts printed so far.\<close>

record world =
  fs_of :: node
  console :: "string list"

definition print :: "string \<Rightarrow> world \<Rightarrow> world" where
  "print s w = w\<lparr>console := console w @ [s]\<rparr>"

subsection \<open>\<open>is_jupytext_file\<close>\<close>

definition is_jupytext_file :: "node \<Rightarrow> path \<Rightarrow> bool" where
  "is_jupytext_file fs py_file =
     (case read_text fs py_file of
        Inr content \<Rightarrow>
          contains ''# ---'' (take 500 content) \<and> contains ''jupytext:'' (take 1000 content)
      | Inl _ \<Rightarrow> False)"

text \<open>The words of the specification: a token appears within the first \<open>n\<close> characters
  of a text when it occupies some positions \<open>i, \<dots>, i + length tok - 1\<close>, all of them
  below \<open>n\<close> and inside the text.\<close>

definition appears_within :: "string \<Rightarrow> nat \<Rightarrow> string \<Rightarrow> bool" where
  "appears_within tok n s =
     (\<exists>i. i + length tok \<le> n \<and> i + length tok \<le> length s \<and> take (length tok) (drop i s) = tok)"

subsection \<open>\<open>discover_team_projects\<close>\<close>

datatype doc_type = Markdown | Quarto | Notebook | Jupytext

record document =
  doc_path :: path
  doc_type :: doc_type
  doc_name :: string

record team =
  team_name :: string
  team_path :: path
  files :: "document list"

definition mk_document :: "doc_type \<Rightarrow> path \<Rightarrow> document" where
  "mk_document t p = \<lparr>doc_path = p, doc_type = t, doc_name = stem_of p\<rparr>"

definition skip_dirs :: "string set" where
  "skip_dirs = {''template'', ''.venv'', ''__pycache__'', ''demo'', ''data''}"

text \<open>The four \<open>for\<close> loops that fill \<open>files\<close> for one team directory.\<close>

definition team_documents :: "node \<Rightarrow> path \<Rightarrow> document list" where
  "team_documents fs team_dir =
     map (mk_document Markdown) (sort (glob fs team_dir ''.md'')) @
     map (mk_document Quarto) (sort (glob fs team_dir ''.qmd'')) @
     map (mk_document Notebook) (sort (glob fs team_dir ''.ipynb'')) @
     map (mk_document Jupytext) (filter (is_jupytext_file fs) (sort (glob fs team_dir ''.py'')))"

text \<open>The loop over the sorted children of \<open>team_src_dir\<close>.\<close>

fun discover_loop :: "node \<Rightarrow> path list \<Rightarrow> team list" where
  "discover_loop fs [] = []"
| "discover_loop fs (team_dir # rest) =
     (if \<not> is_dir fs team_dir then discover_loop fs rest
      else if prefix ''.'' (name_of team_dir) \<or> name_of team_dir \<in> skip_dirs
        then discover_loop fs rest
      else let fls = team_documents fs team_dir in
        if fls \<noteq> []
        then \<lparr>team_name = name_of team_dir, team_path = team_dir, files = fls\<rparr>
               # discover_loop fs rest
        else discover_loop fs rest)"

definition discover_team_projects :: "node \<Rightarrow> path \<Rightarrow> error + team list" where
  "discover_team_projects fs team_src_dir =
     (if \<not> exists fs team_src_dir then Inr []
      else case iterdir fs team_src_dir of
             Inl e \<Rightarrow> Inl e
           | Inr ds \<Rightarrow> Inr (discover_loop fs (sort ds)))"

text \<open>The words of the specification. A child of a team directory is a recognized
  document when its name ends with \<open>.md\<close>, \<open>.qmd\<close> or \<open>.ipynb\<close>, or ends with \<open>.py\<close> and is
  convertible. The extension groups are ranked in the fixed order. A child of the
  source directory is a team directory when it is a directory that is neither hidden
  nor in the denylist.\<close>

definition recognized :: "node \<Rightarrow> path \<Rightarrow> bool" where
  "recognized fs p =
     (suffix ''.md'' (name_of p) \<or> suffix ''.qmd'' (name_of p) \<or> suffix ''.ipynb'' (name_of p)
      \<or> (suffix ''.py'' (name_of p) \<and> is_jupytext_file fs p))"

definition ext_rank :: "string \<Rightarrow> nat" where
  "ext_rank n =
     (if suffix ''.md'' n then 0 else if suffix ''.qmd'' n then 1
      else if suffix ''.ipynb'' n then 2 else 3)"

definition doc_before :: "document \<Rightarrow> document \<Rightarrow> bool" where
  "doc_before a b =
     (ext_rank (name_of (doc_path a)) < ext_rank (name_of (doc_path b))
      \<or> (ext_rank (name_of (doc_path a)) = ext_rank (name_of (doc_path b))
          \<and> name_of (doc_path a) \<le> name_of (doc_path b)))"

definition hidden :: "string \<Rightarrow> bool" where
  "hidden n = prefix ''.'' n"

definition team_directory :: "node \<Rightarrow> path \<Rightarrow> bool" where
  "team_directory fs d = (is_dir fs d \<and> \<not> hidden (name_of d) \<and> name_of d \<notin> skip_dirs)"

definition has_document :: "node \<Rightarrow> path \<Rightarrow> bool" where
  "has_document fs d = (filter (recognized fs) (children fs d) \<noteq> [])"

subsection \<open>\<open>generate_quarto_yml\<close>\<close>

text \<open>The inner loop builds \<open>team_files\<close>, the outer loop \<open>team_entries\<close>.\<close>

fun sidebar_files :: "path \<Rightarrow> document list \<Rightarrow> error + string list" where
  "sidebar_files root [] = Inr []"
| "sidebar_files root (f # rest) =
     (case relative_to (doc_path f) root of
        Inl e \<Rightarrow> Inl e
      | Inr rel_path \<Rightarrow>
          (case sidebar_files root rest of
             Inl e \<Rightarrow> Inl e
           | Inr ls \<Rightarrow> Inr ((''          - '' @ str_rel rel_path) # ls)))"

fun sidebar_entries :: "path \<Rightarrow> team list \<Rightarrow> error + string list" where
  "sidebar_entries root [] = Inr []"
| "sidebar_entries root (t # rest) =
     (case sidebar_files root (files t) of
        Inl e \<Rightarrow> Inl e
      | Inr team_files \<Rightarrow>
          (case sidebar_entries root rest of
             Inl e \<Rightarrow> Inl e
           | Inr es \<Rightarrow>
               if team_files \<noteq> []
               then Inr ((''        - section: '' @ [CHR 0x22] @ team_name t @ [CHR 0x22]
                          @ ''\<newline>          contents:\<newline>'' @ join ''\<newline>'' team_files) # es)
               else Inr es))"

definition config_head :: string where
  \<open>config_head = ''project:\<newline>  type: website\<newline>  output-dir: docs\<newline>\<newline>website:\<newline>  title: "DataDive 2025"\<newline>  description: "World Bank Data Dive - Data Community DC"\<newline>  navbar:\<newline>    left:\<newline>      - href: index.qmd\<newline>        text: Home\<newline>      - href: Team_Projects/README.md\<newline>        text: Projects\<newline>  sidebar:\<newline>    - title: "Team Projects"\<newline>      style: "docked"\<newline>      contents:\<newline>''\<close>

definition config_tail :: string where
  "config_tail = ''\<newline>\<newline>format:\<newline>  html:\<newline>    theme: cosmo\<newline>    toc: true\<newline>    toc-depth: 3\<newline>    code-fold: true\<newline>    code-tools: true\<newline>    highlight-style: github\<newline>\<newline>execute:\<newline>  freeze: auto\<newline>  echo: true\<newline>  warning: false\<newline>''"

definition generate_quarto_yml :: "path \<Rightarrow> team list \<Rightarrow> error + string" where
  "generate_quarto_yml root teams =
     (case sidebar_entries root teams of
        Inl e \<Rightarrow> Inl e
      | Inr team_entries \<Rightarrow>
          let sidebar_contents =
                (if team_entries \<noteq> [] then join ''\<newline>'' team_entries
                 else ''        - Team_Projects/README.md'')
          in Inr (config_head @ sidebar_contents @ config_tail))"

subsection \<open>\<open>create_index_qmd\<close>\<close>

fun file_links :: "path \<Rightarrow> document list \<Rightarrow> error + string" where
  "file_links root [] = Inr []"
| "file_links root (f # rest) =
     (case relative_to (doc_path f) root of
        Inl e \<Rightarrow> Inl e
      | Inr rel_path \<Rightarrow>
          (case file_links root rest of
             Inl e \<Rightarrow> Inl e
           | Inr ls \<Rightarrow> Inr (''- ['' @ doc_name f @ '']('' @ str_rel rel_path @ '')\<newline>'' @ ls)))"

fun team_sections :: "path \<Rightarrow> team list \<Rightarrow> error + string" where
  "team_sections root [] = Inr []"
| "team_sections root (t # rest) =
     (case file_links root (files t) of
        Inl e \<Rightarrow> Inl e
      | Inr links \<Rightarrow>
          (case team_sections root rest of
             Inl e \<Rightarrow> Inl e
           | Inr ss \<Rightarrow> Inr (''### '' @ team_name t @ ''\<newline>\<newline>'' @ links @ ''\<newline>'' @ ss)))"

text \<open>The em dash, as the bytes of its UTF-8 encoding.\<close>

definition mdash :: string where
  "mdash = [CHR 0xE2, CHR 0x80, CHR 0x94]"

text \<open>The title and the body taken from \<open>index.html\<close>.\<close>

definition html_title :: "string \<Rightarrow> string \<Rightarrow> string" where
  "html_title title html_content =
     (if contains ''<title>'' html_content \<and> contains ''</title>'' html_content
      then str_replace
             (slice html_content (str_find html_content ''<title>'' + 7)
                (str_find html_content ''</title>''))
             ''&mdash;'' mdash
      else title)"

definition html_body :: "string \<Rightarrow> string \<Rightarrow> string" where
  "html_body body_content html_content =
     (if contains ''<body>'' html_content
      then let body_start = str_find html_content ''<body>'' + 6;
               body_end = (if contains ''</body>'' html_content
                           then str_find html_content ''</body>''
                           else int (length html_content));
               body_html = slice html_content body_start body_end
           in strip (str_replace (str_replace (str_replace (str_replace body_html
                ''<h1>'' ''\<newline>## '') ''</h1>'' ''\<newline>'') ''<p>'' ''\<newline>'') ''</p>'' ''\<newline>'')
      else body_content)"

definition create_index_qmd :: "node \<Rightarrow> path \<Rightarrow> team list \<Rightarrow> error + string" where
  \<open>create_index_qmd fs root teams =
     (let index_html = root @ [''index.html''];
          title = ''Data Dive 2025'';
          description = ''Welcome to the 2025 World Bank Data Dive!'';
          body_content = []
      in case (if exists fs index_html
               then (case read_text fs index_html of
                       Inl e \<Rightarrow> Inl e
                     | Inr html_content \<Rightarrow>
                         Inr (html_title title html_content, html_body body_content html_content))
               else Inr (title, body_content)) of
           Inl e \<Rightarrow> Inl e
         | Inr (title, body_content) \<Rightarrow>
             (case (if teams \<noteq> []
                    then (case team_sections root teams of
                            Inl e \<Rightarrow> Inl e
                          | Inr ss \<Rightarrow> Inr (''\<newline>## Team Projects\<newline>\<newline>'' @ ss))
                    else Inr []) of
                Inl e \<Rightarrow> Inl e
              | Inr team_links \<Rightarrow>
                  Inr (''---\<newline>title: "'' @ title @ ''"\<newline>---\<newline>\<newline>'' @ body_content
                       @ ''\<newline>\<newline>'' @ team_links @ ''\<newline>'')))\<close>

subsection \<open>External programs\<close>

text \<open>\<open>subprocess.run(args, cwd = \<dots>, capture_output = True, text = True)\<close>. The
  environment maps the name of an executable to the program found for it, if any; a
  program that is found runs to completion, may change the filesystem and yields its
  exit code and its two output texts. A name without program raises
  \<open>FileNotFoundError\<close>, the result \<open>None\<close> here. The working directory of a launch is
  taken to exist.\<close>

record completed =
  returncode :: int
  stdout :: string
  stderr :: string

type_synonym program = "string list \<Rightarrow> path option \<Rightarrow> node \<Rightarrow> completed \<times> node"

type_synonym env = "string \<Rightarrow> program option"

definition subprocess_run ::
  "env \<Rightarrow> string \<Rightarrow> string list \<Rightarrow> path option \<Rightarrow> node \<Rightarrow> (completed \<times> node) option" where
  "subprocess_run env exe args cwd fs =
     (case env exe of None \<Rightarrow> None | Some prog \<Rightarrow> Some (prog (exe # args) cwd fs))"

subsection \<open>\<open>convert_jupytext_to_qmd\<close>\<close>

definition jupytext_args :: "path \<Rightarrow> path \<Rightarrow> string list" where
  "jupytext_args output_file py_file =
     [''--to'', ''qmd'', ''-o'', str_path output_file, str_path py_file]"

subsection \<open>\<open>manual_jupytext_to_qmd\<close>\<close>

definition is_marker :: "string \<Rightarrow> bool" where
  "is_marker line = (strip line = ''# ---'')"

text \<open>\<open>line[2:] if line.startswith("# ") else line[1:] if line.startswith("#") else line\<close>\<close>

definition yaml_line :: "string \<Rightarrow> string" where
  "yaml_line line =
     (if prefix ''# '' line then drop 2 line else if prefix ''#'' line then drop 1 line else line)"

text \<open>The first loop: \<open>extract_yaml in_yaml_header lines\<close> is what the loop appends to
  \<open>yaml_content\<close>; the loop ends at the second marker line.\<close>

fun extract_yaml :: "bool \<Rightarrow> string list \<Rightarrow> string list" where
  "extract_yaml in_yaml_header [] = []"
| "extract_yaml in_yaml_header (line # rest) =
     (if is_marker line \<and> \<not> in_yaml_header then extract_yaml True rest
      else if is_marker line \<and> in_yaml_header then []
      else if in_yaml_header then yaml_line line # extract_yaml in_yaml_header rest
      else extract_yaml in_yaml_header rest)"

text \<open>The second loop, with its three variables: the result is what the loop appends
  to \<open>qmd_lines\<close> and the final value of \<open>in_code_block\<close>.\<close>

definition emit :: "string \<Rightarrow> string list \<times> bool \<Rightarrow> string list \<times> bool" where
  "emit x r = (x # fst r, snd r)"

fun process_lines :: "bool \<Rightarrow> bool \<Rightarrow> nat \<Rightarrow> string list \<Rightarrow> string list \<times> bool" where
  "process_lines in_code_block skip_header header_end_count [] = ([], in_code_block)"
| "process_lines in_code_block skip_header header_end_count (line # rest) =
     (if skip_header then
        (if is_marker line
         then process_lines in_code_block (\<not> (header_end_count + 1 \<ge> 2))
                (header_end_count + 1) rest
         else process_lines in_code_block skip_header header_end_count rest)
      else if prefix ''# %% [markdown]'' line then
        (if in_code_block
         then emit ''```\<newline>'' (process_lines False skip_header header_end_count rest)
         else process_lines in_code_block skip_header header_end_count rest)
      else if prefix ''# %%'' line then
        (if \<not> in_code_block
         then emit ''\<newline>```{python}'' (process_lines True skip_header header_end_count rest)
         else process_lines in_code_block skip_header header_end_count rest)
      else if \<not> in_code_block \<and> prefix ''# '' line
        then emit (drop 2 line) (process_lines in_code_block skip_header header_end_count rest)
      else if in_code_block
        then emit line (process_lines in_code_block skip_header header_end_count rest)
      else if strip line = []
        then emit [] (process_lines in_code_block skip_header header_end_count rest)
      else process_lines in_code_block skip_header header_end_count rest)"

text \<open>The list \<open>qmd_lines\<close> at the end of the \<open>try\<close> block, for the stem of the file and
  its text.\<close>

definition qmd_lines :: "string \<Rightarrow> string \<Rightarrow> string list" where
  \<open>qmd_lines stem content =
     (let lines = split_nl content;
          yaml_content = extract_yaml False lines;
          body = process_lines False True 0 lines
      in [''---'']
         @ (if yaml_content \<noteq> [] then yaml_content else [''title: "'' @ stem @ ''"''])
         @ [''---\<newline>'']
         @ fst body
         @ (if snd body then [''```''] else []))\<close>

definition manual_jupytext_to_qmd :: "world \<Rightarrow> path \<Rightarrow> path \<Rightarrow> world \<times> path option" where
  "manual_jupytext_to_qmd w py_file output_dir =
     (case read_text (fs_of w) py_file of
        Inl e \<Rightarrow>
          (print (''  Error converting '' @ name_of py_file @ '': '' @ str_error e) w, None)
      | Inr content \<Rightarrow>
          let output_file = output_dir @ [stem_of py_file @ ''.qmd''] in
          (case write_text (fs_of w) output_file
                  (join ''\<newline>'' (qmd_lines (stem_of py_file) content)) of
             Inl e \<Rightarrow>
               (print (''  Error converting '' @ name_of py_file @ '': '' @ str_error e) w, None)
           | Inr fs' \<Rightarrow>
               (print (''  Converted (manual): '' @ name_of py_file @ '' -> ''
                         @ name_of output_file) (w\<lparr>fs_of := fs'\<rparr>),
                Some output_file)))"

definition convert_jupytext_to_qmd :: "env \<Rightarrow> world \<Rightarrow> path \<Rightarrow> path \<Rightarrow> world \<times> path option" where
  "convert_jupytext_to_qmd env w py_file output_dir =
     (let output_file = output_dir @ [stem_of py_file @ ''.qmd''] in
      case subprocess_run env ''jupytext'' (jupytext_args output_file py_file) None (fs_of w) of
        None \<Rightarrow> manual_jupytext_to_qmd w py_file output_dir
      | Some (result, fs') \<Rightarrow>
          if returncode result = 0 \<and> exists fs' output_file
          then (print (''  Converted: '' @ name_of py_file @ '' -> '' @ name_of output_file)
                  (w\<lparr>fs_of := fs'\<rparr>),
                Some output_file)
          else (print (''    '' @ stderr result)
                  (print (''  Warning: jupytext conversion failed for '' @ name_of py_file)
                     (w\<lparr>fs_of := fs'\<rparr>)),
                None))"

subsection \<open>\<open>run_quarto_render\<close>\<close>

definition run_quarto_render :: "env \<Rightarrow> world \<Rightarrow> path \<Rightarrow> world \<times> bool" where
  "run_quarto_render env w root =
     (let w1 = print ''\<newline>Running Quarto render...'' w in
      case subprocess_run env ''quarto'' [''render''] (Some root) (fs_of w1) of
        None \<Rightarrow>
          (print (''Error: Quarto CLI not found. Please install Quarto from ''
                    @ ''https://quarto.org/docs/get-started/'') w1,
           False)
      | Some (result, fs') \<Rightarrow>
          let w2 = w1\<lparr>fs_of := fs'\<rparr>;
              w3 = (if stdout result \<noteq> [] then print (stdout result) w2 else w2)
          in if returncode result \<noteq> 0
             then let w4 = print (''Quarto render failed with exit code ''
                                    @ str_int (returncode result)) w3
                  in ((if stderr result \<noteq> [] then print (''Error: '' @ stderr result) w4
                       else w4),
                      False)
             else (print ''Quarto render completed successfully!'' w3, True))"

subsection \<open>\<open>get_root_dir\<close> and \<open>build_site\<close>\<close>

text \<open>\<open>script_file\<close> is the resolved \<open>__file__\<close> and \<open>cwd\<close> the working directory.\<close>

definition get_root_dir :: "path \<Rightarrow> path \<Rightarrow> path" where
  "get_root_dir script_file cwd =
     (let script_dir = parent_of script_file in
      if name_of script_dir = ''workflows'' \<and> name_of (parent_of script_dir) = ''.github''
      then parent_of (parent_of script_dir) else cwd)"

text \<open>The loop that prints what was found.\<close>

fun report_files :: "document list \<Rightarrow> world \<Rightarrow> world" where
  "report_files [] w = w"
| "report_files (f # rest) w =
     report_files rest
       (print (''    - '' @ name_of (doc_path f) @ '' ('' @
               (case doc_type f of Markdown \<Rightarrow> ''markdown'' | Quarto \<Rightarrow> ''quarto''
                | Notebook \<Rightarrow> ''notebook'' | Jupytext \<Rightarrow> ''jupytext'') @ '')'') w)"

fun report_teams :: "team list \<Rightarrow> world \<Rightarrow> world" where
  "report_teams [] w = w"
| "report_teams (t # rest) w =
     report_teams rest
       (report_files (files t)
          (print (''  Found: '' @ team_name t @ '' ('' @ str_nat (length (files t)) @ '' files)'') w))"

text \<open>The conversion loop: the body for one document, the loop over the documents of
  a team and the loop over the teams. A converted document gets the new path and the
  type \<open>quarto\<close>.\<close>

definition convert_file :: "env \<Rightarrow> world \<Rightarrow> document \<Rightarrow> world \<times> document" where
  "convert_file env w f =
     (if doc_type f = Jupytext
      then (case convert_jupytext_to_qmd env w (doc_path f) (parent_of (doc_path f)) of
              (w', Some qmd_path) \<Rightarrow> (w', f\<lparr>doc_path := qmd_path, doc_type := Quarto\<rparr>)
            | (w', None) \<Rightarrow> (w', f))
      else (w, f))"

fun convert_files :: "env \<Rightarrow> world \<Rightarrow> document list \<Rightarrow> world \<times> document list" where
  "convert_files env w [] = (w, [])"
| "convert_files env w (f # rest) =
     (case convert_file env w f of
        (w', f') \<Rightarrow> (case convert_files env w' rest of (w'', rest') \<Rightarrow> (w'', f' # rest')))"

fun convert_teams :: "env \<Rightarrow> world \<Rightarrow> team list \<Rightarrow> world \<times> team list" where
  "convert_teams env w [] = (w, [])"
| "convert_teams env w (t # rest) =
     (case convert_files env w (files t) of
        (w', fls) \<Rightarrow>
          (case convert_teams env w' rest of (w'', rest') \<Rightarrow> (w'', t\<lparr>files := fls\<rparr> # rest')))"

text \<open>\<open>build_site\<close> up to the call of the renderer: the world and the teams at that
  point, or the exception that ended the run before it.\<close>

definition prepare_site :: "env \<Rightarrow> path \<Rightarrow> world \<Rightarrow> error + world \<times> team list" where
  "prepare_site env root w =
     (let team_src_dir = root @ [''Team_Projects''];
          w1 = print (''Building site from: '' @ str_path root) w;
          w2 = print (''Team projects directory: '' @ str_path team_src_dir) w1;
          w3 = print ''\<newline>Discovering team projects...'' w2
      in case discover_team_projects (fs_of w3) team_src_dir of
           Inl e \<Rightarrow> Inl e
         | Inr teams \<Rightarrow>
             let w4 = report_teams teams w3;
                 w5 = print ''\<newline>Processing Jupytext files...'' w4
             in (case convert_teams env w5 teams of
                   (w6, teams') \<Rightarrow>
                     let w7 = print ''\<newline>Generating _quarto.yml...'' w6 in
                     (case generate_quarto_yml root teams' of
                        Inl e \<Rightarrow> Inl e
                      | Inr quarto_yml \<Rightarrow>
                          let quarto_yml_path = root @ [''_quarto.yml''] in
                          (case write_text (fs_of w7) quarto_yml_path quarto_yml of
                             Inl e \<Rightarrow> Inl e
                           | Inr fs8 \<Rightarrow>
                               let w8 = print (''Created: '' @ str_path quarto_yml_path)
                                          (w7\<lparr>fs_of := fs8\<rparr>);
                                   w9 = print ''\<newline>Generating index.qmd...'' w8
                               in (case create_index_qmd (fs_of w9) root teams' of
                                     Inl e \<Rightarrow> Inl e
                                   | Inr index_qmd \<Rightarrow>
                                       let index_qmd_path = root @ [''index.qmd''] in
                                       (case write_text (fs_of w9) index_qmd_path index_qmd of
                                          Inl e \<Rightarrow> Inl e
                                        | Inr fs10 \<Rightarrow>
                                            Inr (print (''Created: '' @ str_path index_qmd_path)
                                                   (w9\<lparr>fs_of := fs10\<rparr>),
                                                 teams')))))))"

text \<open>The whole run: the final world and the exit status of the process, or the
  exception that ended it. \<open>sys.exit(1)\<close> is the status 1.\<close>

definition build_site :: "env \<Rightarrow> path \<Rightarrow> path \<Rightarrow> world \<Rightarrow> error + world \<times> nat" where
  "build_site env script_file cwd w =
     (let root = get_root_dir script_file cwd in
      case prepare_site env root w of
        Inl e \<Rightarrow> Inl e
      | Inr (w10, teams) \<Rightarrow>
          (case run_quarto_render env w10 root of
             (w11, success) \<Rightarrow>
               if success
               then Inr (print (''\<newline>Build complete! Output in: '' @ str_path (root @ [''docs'']))
                           w11, 0)
               else Inr (print ''\<newline>Build failed!'' w11, 1)))"

text \<open>Scanning a Quarto markdown text again for its code regions: outside a region a
  line that begins with three backquotes opens one, inside a region the line of
  exactly three backquotes closes it. \<open>unclosed_region\<close> says that the text ends inside
  a region. A fence line is a source line that reads as a fence, as it stands or
  without its comment prefix.\<close>

definition is_fence :: "string \<Rightarrow> bool" where
  "is_fence l = prefix ''```'' l"

fun rescan :: "bool \<Rightarrow> string list \<Rightarrow> bool" where
  "rescan in_region [] = in_region"
| "rescan in_region (l # ls) = rescan (if in_region then l \<noteq> ''```'' else is_fence l) ls"

definition unclosed_region :: "string \<Rightarrow> bool" where
  "unclosed_region text = rescan False (split_nl text)"

definition fence_line :: "string \<Rightarrow> bool" where
  "fence_line line = (is_fence line \<or> is_fence (yaml_line line))"

text \<open>Well-formed input in the words of the specification, read strictly: the
  metadata marker line occurs exactly twice (the pair around the header, no stray
  one), and the cell markers of the text alternate between markdown cells and code
  cells, so that every code-cell marker opens a region and the next markdown-cell
  marker closes it.\<close>

definition cell_marker :: "string \<Rightarrow> bool" where
  "cell_marker line = prefix ''# %%'' line"

definition code_marker :: "string \<Rightarrow> bool" where
  "code_marker line = (prefix ''# %%'' line \<and> \<not> prefix ''# %% [markdown]'' line)"

fun alternate :: "bool list \<Rightarrow> bool" where
  "alternate (a # b # rest) = (a \<noteq> b \<and> alternate (b # rest))"
| "alternate _ = True"

definition properly_paired :: "string list \<Rightarrow> bool" where
  "properly_paired lines =
     (length (filter is_marker lines) = 2
      \<and> alternate (map code_marker (filter cell_marker lines)))"

text \<open>The entry of a document after a successful conversion: the lines
  \<open>f["path"] = qmd_path; f["type"] = "quarto"\<close> with the path that the conversion returns.\<close>

definition converted :: "document \<Rightarrow> document" where
  "converted f =
     f\<lparr>doc_path := parent_of (doc_path f) @ [stem_of (doc_path f) @ ''.qmd''], doc_type := Quarto\<rparr>"

text \<open>The two texts that only the manual conversion prints: a run of it is recognized
  by the last text on the console.\<close>

definition manual_message :: "string \<Rightarrow> bool" where
  "manual_message m = (prefix ''  Converted (manual): '' m \<or> prefix ''  Error converting '' m)"

text \<open>The text that \<open>run_quarto_render\<close> prints when the renderer is not found.\<close>

definition quarto_missing_text :: string where
  "quarto_missing_text =
     ''Error: Quarto CLI not found. Please install Quarto from https://quarto.org/docs/get-started/''"

text \<open>The landing page in the words of the specification: the "Team Projects"
  section has one heading per team, followed by one link per document made of the
  display name and the path relative to the root; without teams it is empty.\<close>

definition document_link :: "path \<Rightarrow> document \<Rightarrow> string" where
  "document_link root f =
     ''- ['' @ doc_name f @ '']('' @ str_rel (drop (length root) (doc_path f)) @ '')\<newline>''"

definition team_section :: "path \<Rightarrow> team \<Rightarrow> string" where
  "team_section root t =
     ''### '' @ team_name t @ ''\<newline>\<newline>'' @ concat (map (document_link root) (files t)) @ ''\<newline>''"

definition team_projects_section :: "path \<Rightarrow> team list \<Rightarrow> string" where
  "team_projects_section root teams =
     (if teams = [] then []
      else ''\<newline>## Team Projects\<newline>\<newline>'' @ concat (map (team_section root) teams))"

definition default_page_head :: string where
  \<open>default_page_head = ''---\<newline>title: "Data Dive 2025"\<newline>---\<newline>\<newline>''\<close>

text \<open>The metadata block of a text with fewer than two marker lines, in the words of
  the claim: the lines after the first marker line without their comment prefix, or,
  when there are none, a title made from the stem.\<close>

definition title_line :: "string \<Rightarrow> string" where
  \<open>title_line stem = ''title: "'' @ stem @ ''"''\<close>

definition metadata_block :: "string \<Rightarrow> string list \<Rightarrow> string list" where
  "metadata_block stem lines =
     (let extracted = map yaml_line (drop 1 (dropWhile (\<lambda>l. \<not> is_marker l) lines))
      in if extracted \<noteq> [] then extracted else [title_line stem])"

subsection \<open>Example inputs\<close>

text \<open>A repository with two teams, a stray file, a denylisted and a hidden directory
  that both hold documents, and a directory without documents.\<close>

definition team_projects1 :: "(string \<times> node) list" where
  "team_projects1 =
     [(''zeta'', Dir [(''b.py'', File ''# ---\<newline># jupyter:\<newline>#   jupytext:\<newline># ---\<newline>''),
                      (''a.py'', File ''x = 1''), (''n.ipynb'', File ''{}''),
                      (''r.qmd'', File ''q''), (''z.md'', File ''m''), (''a.md'', File ''m'')]),
      (''README.md'', File ''readme''),
      (''demo'', Dir [(''x.md'', File ''m'')]),
      (''.git'', Dir [(''x.md'', File ''m'')]),
      (''empty'', Dir [(''x.txt'', File ''m'')]),
      (''alpha'', Dir [(''notes.md'', File ''m'')])]"

definition fs1 :: node where
  "fs1 = Dir [(''repo'', Dir [(''Team_Projects'', Dir team_projects1)])]"

definition teams1 :: "team list" where
  "teams1 =
     [\<lparr>team_name = ''alpha'', team_path = [''repo'', ''Team_Projects'', ''alpha''],
       files = [mk_document Markdown [''repo'', ''Team_Projects'', ''alpha'', ''notes.md'']]\<rparr>,
      \<lparr>team_name = ''zeta'', team_path = [''repo'', ''Team_Projects'', ''zeta''],
       files = [mk_document Markdown [''repo'', ''Team_Projects'', ''zeta'', ''a.md''],
                mk_document Markdown [''repo'', ''Team_Projects'', ''zeta'', ''z.md''],
                mk_document Quarto [''repo'', ''Team_Projects'', ''zeta'', ''r.qmd''],
                mk_document Notebook [''repo'', ''Team_Projects'', ''zeta'', ''n.ipynb''],
                mk_document Jupytext [''repo'', ''Team_Projects'', ''zeta'', ''b.py'']]\<rparr>]"

text \<open>A notebook whose last code cell is open at the end of the text, and a file that
  is classified as convertible although no line of it is a marker line.\<close>

definition notebook1 :: string where
  "notebook1 = ''# ---\<newline># jupyter:\<newline>#   jupytext:\<newline>#     x: 1\<newline># ---\<newline>\<newline># %% [markdown]\<newline># # Title\<newline># text\<newline>\<newline># %%\<newline>import os\<newline>x = 1\<newline>\<newline># %% [markdown]\<newline># more\<newline># %%\<newline>print(x)''"

text \<open>A notebook with a markdown cell, a code cell and a markdown cell, whose code cell
  holds a line of three backquotes.\<close>

definition fenced1 :: string where
  "fenced1 = ''# ---\<newline># jupyter:\<newline>#   jupytext:\<newline>#     x: 1\<newline># ---\<newline># %% [markdown]\<newline># text\<newline># %%\<newline>doc = 1\<newline>```\<newline>y = 2\<newline># %% [markdown]\<newline># more''"

definition world4 :: world where
  "world4 = \<lparr>fs_of = Dir [(''repo'', Dir [(''Team_Projects'', Dir [(''alpha'',
       Dir [(''fenced.py'', File fenced1)])])])],
     console = []\<rparr>"

definition inline1 :: string where
  "inline1 = ''x = 1  # --- jupytext: y\<newline># %%\<newline>y = 2''"

definition world2 :: world where
  "world2 = \<lparr>fs_of = Dir [(''repo'', Dir [(''Team_Projects'', Dir [(''alpha'',
       Dir [(''nb.py'', File notebook1), (''inline.py'', File inline1)])])])],
     console = []\<rparr>"

text \<open>External programs: a converter that is found and fails, one that exits with 0
  and writes nothing, one that writes the file \<open>p\<close>; environments with one of them as
  \<open>jupytext\<close> and no \<open>quarto\<close>, and the environment without any program.\<close>

definition failing_tool :: program where
  "failing_tool args cwd fs = (\<lparr>returncode = 1, stdout = [], stderr = ''boom''\<rparr>, fs)"

definition idle_tool :: program where
  "idle_tool args cwd fs = (\<lparr>returncode = 0, stdout = [], stderr = []\<rparr>, fs)"

definition writing_tool :: "path \<Rightarrow> program" where
  "writing_tool p args cwd fs =
     (case write_text fs p ''converted'' of
        Inr fs' \<Rightarrow> (\<lparr>returncode = 0, stdout = [], stderr = []\<rparr>, fs')
      | Inl e \<Rightarrow> (\<lparr>returncode = 1, stdout = [], stderr = str_error e\<rparr>, fs))"

definition env_with :: "program \<Rightarrow> env" where
  "env_with prog = (\<lambda>exe. if exe = ''jupytext'' then Some prog else None)"

definition env_none :: env where
  "env_none = (\<lambda>exe. None)"

definition world1 :: world where
  "world1 = \<lparr>fs_of = fs1, console = []\<rparr>"

definition b_py :: path where
  "b_py = [''repo'', ''Team_Projects'', ''zeta'', ''b.py'']"
definition b_qmd :: path where
  "b_qmd = [''repo'', ''Team_Projects'', ''zeta'', ''b.qmd'']"
definition zeta_dir :: path where
  "zeta_dir = [''repo'', ''Team_Projects'', ''zeta'']"

text \<open>An environment with a renderer only, and the place of the script.\<close>

definition env_render :: "program \<Rightarrow> env" where
  "env_render prog = (\<lambda>exe. if exe = ''quarto'' then Some prog else None)"

definition build_py :: path where
  "build_py = [''repo'', ''.github'', ''workflows'', ''build.py'']"

text \<open>A team directory with a document and a convertible file of the same stem.\<close>

definition fs3 :: node where
  "fs3 = Dir [(''repo'', Dir [(''Team_Projects'', Dir [(''gamma'',
       Dir [(''report.qmd'', File ''old report''), (''report.py'', File notebook1)])])])]"

definition world3 :: world where
  "world3 = \<lparr>fs_of = fs3, console = []\<rparr>"

definition gamma_dir :: path where
  "gamma_dir = [''repo'', ''Team_Projects'', ''gamma'']"

section \<open>Properties\<close>

subsection \<open>Strings\<close>

lemma contains_iff_sublist: "contains sub s \<longleftrightarrow> sublist sub s"
  by (induction s) (auto simp: sublist_Cons_right)

lemma sublist_iff_position:
  "sublist tok s \<longleftrightarrow> (\<exists>i. i + length tok \<le> length s \<and> take (length tok) (drop i s) = tok)"
proof
  assume "sublist tok s"
  then obtain ps ss where s: "s = ps @ tok @ ss"
    by (auto simp: sublist_def)
  have "length ps + length tok \<le> length s \<and> take (length tok) (drop (length ps) s) = tok"
    by (simp add: s)
  then show "\<exists>i. i + length tok \<le> length s \<and> take (length tok) (drop i s) = tok" ..
next
  assume "\<exists>i. i + length tok \<le> length s \<and> take (length tok) (drop i s) = tok"
  then obtain i where i: "i + length tok \<le> length s" "take (length tok) (drop i s) = tok"
    by blast
  have "s = take i s @ take (length tok) (drop i s) @ drop (length tok) (drop i s)"
    by (simp only: append_take_drop_id)
  with i(2) have "s = take i s @ tok @ drop (length tok) (drop i s)"
    by simp
  then show "sublist tok s"
    unfolding sublist_def by blast
qed

lemma contains_take_iff: "contains tok (take n s) \<longleftrightarrow> appears_within tok n s"
proof -
  have "(\<exists>i. i + length tok \<le> length (take n s) \<and> take (length tok) (drop i (take n s)) = tok)
        \<longleftrightarrow> (\<exists>i. i + length tok \<le> n \<and> i + length tok \<le> length s
                  \<and> take (length tok) (drop i s) = tok)"
  proof (intro iff_exI)
    fix i
    show "(i + length tok \<le> length (take n s) \<and> take (length tok) (drop i (take n s)) = tok)
          \<longleftrightarrow> (i + length tok \<le> n \<and> i + length tok \<le> length s
                \<and> take (length tok) (drop i s) = tok)"
      by (auto simp: drop_take min_def)
  qed
  then show ?thesis
    by (simp add: contains_iff_sublist sublist_iff_position appears_within_def)
qed

subsection \<open>Paths and discovery\<close>

lemma le_same_parent: "(d @ [a] \<le> d @ [b]) \<longleftrightarrow> (a \<le> (b::string))"
  by (induction d) auto

lemma name_of_child [simp]: "name_of (d @ [n]) = n"
  by (simp add: name_of_def)

lemma children_names: "p \<in> set (children fs d) \<Longrightarrow> \<exists>n. p = d @ [n]"
  by (auto simp: children_def iterdir_def split: option.splits node.splits)

lemma ext_disjoint:
  "suffix ''.md'' n \<Longrightarrow> \<not> suffix ''.qmd'' n \<and> \<not> suffix ''.ipynb'' n \<and> \<not> suffix ''.py'' n"
  "suffix ''.qmd'' n \<Longrightarrow> \<not> suffix ''.ipynb'' n \<and> \<not> suffix ''.py'' n"
  "suffix ''.ipynb'' n \<Longrightarrow> \<not> suffix ''.py'' n"
  by (auto simp: suffix_def)

lemma sorted_names_of_siblings:
  "\<forall>p \<in> set ps. \<exists>n. p = d @ [n] \<Longrightarrow> sorted ps \<Longrightarrow> sorted (map name_of ps)"
proof (induction ps)
  case Nil
  then show ?case by simp
next
  case (Cons p ps)
  then obtain a where a: "p = d @ [a]" by auto
  have "name_of p \<le> name_of q" if "q \<in> set ps" for q
  proof -
    from that Cons.prems(1) obtain b where b: "q = d @ [b]" by auto
    from that Cons.prems(2) have "p \<le> q" by simp
    then show ?thesis by (simp add: a b le_same_parent)
  qed
  with Cons show ?case by simp
qed

lemma discover_loop_paths:
  "map team_path (discover_loop fs ds)
     = filter (\<lambda>d. team_directory fs d \<and> team_documents fs d \<noteq> []) ds"
  by (induction ds) (auto simp: team_directory_def hidden_def Let_def)

lemma discover_loop_member:
  "t \<in> set (discover_loop fs ds) \<Longrightarrow>
     team_name t = name_of (team_path t) \<and> files t = team_documents fs (team_path t)
     \<and> files t \<noteq> [] \<and> team_directory fs (team_path t) \<and> team_path t \<in> set ds"
  by (induction ds) (auto simp: team_directory_def hidden_def Let_def split: if_splits)

lemma discover_loop_names:
  "map team_name (discover_loop fs ds) = map name_of (map team_path (discover_loop fs ds))"
  by (induction ds) (auto simp: Let_def)

lemma mset_filter_disj:
  "(\<And>x. x \<in> set xs \<Longrightarrow> \<not> (P x \<and> Q x)) \<Longrightarrow>
     mset (filter P xs) + mset (filter Q xs) = mset (filter (\<lambda>x. P x \<or> Q x) xs)"
  by (induction xs) auto

lemma mset_filter_groups:
  "mset (filter (\<lambda>p. suffix ''.md'' (name_of p)) ps)
   + (mset (filter (\<lambda>p. suffix ''.qmd'' (name_of p)) ps)
   + (mset (filter (\<lambda>p. suffix ''.ipynb'' (name_of p)) ps)
   + mset (filter (\<lambda>p. suffix ''.py'' (name_of p) \<and> is_jupytext_file fs p) ps)))
   = mset (filter (recognized fs) ps)"
proof -
  have 1: "mset (filter (\<lambda>p. suffix ''.ipynb'' (name_of p)) ps)
      + mset (filter (\<lambda>p. suffix ''.py'' (name_of p) \<and> is_jupytext_file fs p) ps)
    = mset (filter (\<lambda>p. suffix ''.ipynb'' (name_of p)
        \<or> (suffix ''.py'' (name_of p) \<and> is_jupytext_file fs p)) ps)"
    by (rule mset_filter_disj) (auto dest: ext_disjoint)
  have 2: "mset (filter (\<lambda>p. suffix ''.qmd'' (name_of p)) ps)
      + mset (filter (\<lambda>p. suffix ''.ipynb'' (name_of p)
        \<or> (suffix ''.py'' (name_of p) \<and> is_jupytext_file fs p)) ps)
    = mset (filter (\<lambda>p. suffix ''.qmd'' (name_of p) \<or> (suffix ''.ipynb'' (name_of p)
        \<or> (suffix ''.py'' (name_of p) \<and> is_jupytext_file fs p))) ps)"
    by (rule mset_filter_disj) (auto dest: ext_disjoint)
  have 3: "mset (filter (\<lambda>p. suffix ''.md'' (name_of p)) ps)
      + mset (filter (\<lambda>p. suffix ''.qmd'' (name_of p) \<or> (suffix ''.ipynb'' (name_of p)
        \<or> (suffix ''.py'' (name_of p) \<and> is_jupytext_file fs p))) ps)
    = mset (filter (\<lambda>p. suffix ''.md'' (name_of p) \<or> (suffix ''.qmd'' (name_of p)
        \<or> (suffix ''.ipynb'' (name_of p)
        \<or> (suffix ''.py'' (name_of p) \<and> is_jupytext_file fs p)))) ps)"
    by (rule mset_filter_disj) (auto dest: ext_disjoint)
  have "recognized fs = (\<lambda>p. suffix ''.md'' (name_of p) \<or> (suffix ''.qmd'' (name_of p)
        \<or> (suffix ''.ipynb'' (name_of p)
        \<or> (suffix ''.py'' (name_of p) \<and> is_jupytext_file fs p))))"
    by (rule ext) (simp add: recognized_def)
  with 1 2 3 show ?thesis by simp
qed

lemma team_documents_paths:
  "map doc_path (team_documents fs d) =
     sort (glob fs d ''.md'') @ sort (glob fs d ''.qmd'') @ sort (glob fs d ''.ipynb'')
     @ filter (is_jupytext_file fs) (sort (glob fs d ''.py''))"
  by (simp add: team_documents_def mk_document_def comp_def)

lemma team_documents_mset:
  "mset (map doc_path (team_documents fs d)) = mset (filter (recognized fs) (children fs d))"
proof -
  let ?C = "children fs d"
  have "mset (map doc_path (team_documents fs d))
      = mset (filter (\<lambda>p. suffix ''.md'' (name_of p)) ?C)
        + (mset (filter (\<lambda>p. suffix ''.qmd'' (name_of p)) ?C)
        + (mset (filter (\<lambda>p. suffix ''.ipynb'' (name_of p)) ?C)
        + mset (filter (\<lambda>p. suffix ''.py'' (name_of p) \<and> is_jupytext_file fs p) ?C)))"
    by (simp add: team_documents_paths glob_def filter_sort conj_commute)
  also have "\<dots> = mset (filter (recognized fs) ?C)"
    by (rule mset_filter_groups)
  finally show ?thesis .
qed

lemma team_documents_nonempty_iff: "team_documents fs d \<noteq> [] \<longleftrightarrow> has_document fs d"
proof -
  have "team_documents fs d = [] \<longleftrightarrow> mset (map doc_path (team_documents fs d)) = {#}"
    by simp
  also have "\<dots> \<longleftrightarrow> filter (recognized fs) (children fs d) = []"
    unfolding team_documents_mset by (simp only: mset_zero_iff)
  finally show ?thesis by (simp add: has_document_def)
qed

lemma ext_rank_cases:
  "suffix ''.md'' n \<Longrightarrow> ext_rank n = 0"
  "suffix ''.qmd'' n \<Longrightarrow> ext_rank n = 1"
  "suffix ''.ipynb'' n \<Longrightarrow> ext_rank n = 2"
  "suffix ''.py'' n \<Longrightarrow> ext_rank n = 3"
  by (auto simp: ext_rank_def dest: ext_disjoint)

lemma sorted_group:
  assumes "set ps \<subseteq> set (glob fs d ext)" "sorted ps"
    and "\<And>n. suffix ext n \<Longrightarrow> ext_rank n = k"
  shows "sorted_wrt doc_before (map (mk_document t) ps)"
proof -
  have sib: "\<forall>p \<in> set ps. \<exists>n. p = d @ [n]"
    using assms(1) by (auto simp: glob_def dest: children_names)
  have rk: "ext_rank (name_of p) = k" if "p \<in> set ps" for p
    using that assms(1,3) by (auto simp: glob_def)
  from sib assms(2) have "sorted (map name_of ps)"
    by (rule sorted_names_of_siblings)
  then have "sorted_wrt (\<lambda>a b. name_of a \<le> name_of b) ps"
    by (simp add: sorted_map)
  then have "sorted_wrt (\<lambda>a b. doc_before (mk_document t a) (mk_document t b)) ps"
    by (rule sorted_wrt_mono_rel [rotated]) (simp add: doc_before_def mk_document_def rk)
  then show ?thesis by (simp add: sorted_wrt_map)
qed

lemma group_rank:
  assumes "set ps \<subseteq> set (glob fs d ext)"
    and "\<And>n. suffix ext n \<Longrightarrow> ext_rank n = k"
  shows "\<forall>x \<in> set (map (mk_document t) ps). ext_rank (name_of (doc_path x)) = k"
  using assms by (auto simp: glob_def mk_document_def)

lemma sorted_wrt_append_ranked:
  assumes "sorted_wrt doc_before xs" "sorted_wrt doc_before ys"
    and "\<forall>x \<in> set xs. ext_rank (name_of (doc_path x)) = k"
    and "\<forall>y \<in> set ys. k < ext_rank (name_of (doc_path y))"
  shows "sorted_wrt doc_before (xs @ ys)"
  using assms by (auto simp: sorted_wrt_append doc_before_def)

lemma team_documents_sorted: "sorted_wrt doc_before (team_documents fs d)"
proof -
  let ?md = "map (mk_document Markdown) (sort (glob fs d ''.md''))"
  let ?qmd = "map (mk_document Quarto) (sort (glob fs d ''.qmd''))"
  let ?nb = "map (mk_document Notebook) (sort (glob fs d ''.ipynb''))"
  let ?py = "map (mk_document Jupytext) (filter (is_jupytext_file fs) (sort (glob fs d ''.py'')))"
  have py: "set (filter (is_jupytext_file fs) (sort (glob fs d ''.py''))) \<subseteq> set (glob fs d ''.py'')"
    by auto
  have spy: "sorted (filter (is_jupytext_file fs) (sort (glob fs d ''.py'')))"
    by (simp add: sorted_wrt_filter)
  note r = ext_rank_cases
  have s0: "sorted_wrt doc_before ?md"
    by (rule sorted_group [where k = 0 and ext = "''.md''" and fs = fs and d = d])
      (simp_all add: r)
  have s1: "sorted_wrt doc_before ?qmd"
    by (rule sorted_group [where k = 1 and ext = "''.qmd''" and fs = fs and d = d])
      (simp_all add: r)
  have s2: "sorted_wrt doc_before ?nb"
    by (rule sorted_group [where k = 2 and ext = "''.ipynb''" and fs = fs and d = d])
      (simp_all add: r)
  have s3: "sorted_wrt doc_before ?py"
    using py spy by (rule sorted_group [where k = 3 and ext = "''.py''"]) (simp add: r)
  have k0: "\<forall>x \<in> set ?md. ext_rank (name_of (doc_path x)) = 0"
    by (rule group_rank [where ext = "''.md''" and fs = fs and d = d]) (simp_all add: r)
  have k1: "\<forall>x \<in> set ?qmd. ext_rank (name_of (doc_path x)) = 1"
    by (rule group_rank [where ext = "''.qmd''" and fs = fs and d = d]) (simp_all add: r)
  have k2: "\<forall>x \<in> set ?nb. ext_rank (name_of (doc_path x)) = 2"
    by (rule group_rank [where ext = "''.ipynb''" and fs = fs and d = d]) (simp_all add: r)
  have k3: "\<forall>x \<in> set ?py. ext_rank (name_of (doc_path x)) = 3"
    using py by (rule group_rank [where ext = "''.py''"]) (simp add: r)
  have a: "sorted_wrt doc_before (?nb @ ?py)"
    using s2 s3 k2 by (rule sorted_wrt_append_ranked) (use k3 in simp)
  have b: "sorted_wrt doc_before (?qmd @ ?nb @ ?py)"
    using s1 a k1 by (rule sorted_wrt_append_ranked) (use k2 k3 in auto)
  have "sorted_wrt doc_before (?md @ ?qmd @ ?nb @ ?py)"
    using s0 b k0 by (rule sorted_wrt_append_ranked) (use k1 k2 k3 in auto)
  then show ?thesis
    by (simp only: team_documents_def)
qed

lemma iterdir_siblings:
  "iterdir fs d = Inr ds \<Longrightarrow> \<forall>p \<in> set ds. \<exists>n. p = d @ [n]"
  by (auto simp: iterdir_def split: option.splits node.splits)

lemma iterdir_children: "iterdir fs d = Inr ds \<Longrightarrow> children fs d = ds"
  by (simp add: children_def)

lemma discover_loop_sorted:
  assumes "\<forall>p \<in> set ds. \<exists>n. p = d @ [n]" "sorted ds"
  shows "sorted (map team_name (discover_loop fs ds))"
proof -
  let ?keep = "filter (\<lambda>d. team_directory fs d \<and> team_documents fs d \<noteq> []) ds"
  have "\<forall>p \<in> set ?keep. \<exists>n. p = d @ [n]"
    using assms(1) by simp
  moreover have "sorted ?keep"
    using assms(2) by (rule sorted_wrt_filter)
  ultimately have "sorted (map name_of ?keep)"
    by (rule sorted_names_of_siblings)
  then show ?thesis
    by (simp add: discover_loop_names discover_loop_paths)
qed

lemma team_list_eqI:
  fixes xs ys :: "team list"
  assumes "map team_name xs = map team_name ys" "map team_path xs = map team_path ys"
    "map files xs = map files ys"
  shows "xs = ys"
  using assms
proof (induction xs arbitrary: ys)
  case Nil
  then show ?case by simp
next
  case (Cons x xs)
  then obtain y ys' where ys: "ys = y # ys'" by (cases ys) auto
  with Cons.prems have "x = y" by simp
  moreover from Cons.prems ys have "xs = ys'" by (intro Cons.IH) simp_all
  ultimately show ?case by (simp add: ys)
qed

lemma discover_fs1: "discover_team_projects fs1 [''repo'', ''Team_Projects''] = Inr teams1"
proof -
  let ?r = "discover_team_projects fs1 [''repo'', ''Team_Projects'']"
  have "\<not> isl ?r" by code_simp
  moreover have "projr ?r = teams1"
    by (rule team_list_eqI; code_simp)
  ultimately show ?thesis by (cases ?r) simp_all
qed

subsection \<open>Discovery\<close>

text \<open>
  Claim C1. When the source directory is a directory, discovery returns exactly its
  team subdirectories (directories that are neither hidden nor denylisted) that contain
  at least one recognized document, sorted by directory name; each team carries
  exactly the recognized documents of its directory, ordered by extension group
  (\<open>.md\<close>, \<open>.qmd\<close>, \<open>.ipynb\<close>, convertible \<open>.py\<close>) and by filename within a group; no team
  of the result has an empty document list.
\<close>

theorem discover_team_projects_spec:
  assumes "lookup fs team_src_dir = Some (Dir es)"
  shows "\<exists>teams. discover_team_projects fs team_src_dir = Inr teams
      \<and> map team_path teams
          = sort (filter (\<lambda>d. team_directory fs d \<and> has_document fs d)
                    (children fs team_src_dir))
      \<and> sorted (map team_name teams)
      \<and> (\<forall>t \<in> set teams.
            team_name t = name_of (team_path t)
          \<and> files t \<noteq> []
          \<and> mset (map doc_path (files t))
              = mset (filter (recognized fs) (children fs (team_path t)))
          \<and> sorted_wrt doc_before (files t))"
proof -
  let ?ds = "map (\<lambda>e. team_src_dir @ [fst e]) es"
  have it: "iterdir fs team_src_dir = Inr ?ds"
    using assms by (simp add: iterdir_def)
  have d: "discover_team_projects fs team_src_dir = Inr (discover_loop fs (sort ?ds))"
    using assms it by (simp add: discover_team_projects_def exists_def)
  have sib: "\<forall>p \<in> set (sort ?ds). \<exists>n. p = team_src_dir @ [n]"
    by auto
  have 1: "map team_path (discover_loop fs (sort ?ds))
      = sort (filter (\<lambda>d. team_directory fs d \<and> has_document fs d) (children fs team_src_dir))"
    by (simp add: discover_loop_paths team_documents_nonempty_iff filter_sort
        iterdir_children [OF it])
  have 2: "sorted (map team_name (discover_loop fs (sort ?ds)))"
    using sib by (rule discover_loop_sorted) simp
  have 3: "team_name t = name_of (team_path t) \<and> files t \<noteq> []
      \<and> mset (map doc_path (files t)) = mset (filter (recognized fs) (children fs (team_path t)))
      \<and> sorted_wrt doc_before (files t)"
    if "t \<in> set (discover_loop fs (sort ?ds))" for t
  proof -
    from discover_loop_member [OF that]
    have m: "team_name t = name_of (team_path t)" "files t = team_documents fs (team_path t)"
      "files t \<noteq> []"
      by blast+
    have "mset (map doc_path (files t))
        = mset (filter (recognized fs) (children fs (team_path t)))"
      unfolding m(2) by (rule team_documents_mset)
    moreover have "sorted_wrt doc_before (files t)"
      unfolding m(2) by (rule team_documents_sorted)
    ultimately show ?thesis using m(1,3) by blast
  qed
  from d 1 2 3 show ?thesis by blast
qed

theorem discover_team_projects_spec_witness:
  "lookup fs1 [''repo'', ''Team_Projects''] = Some (Dir team_projects1)
   \<and> (\<exists>teams. discover_team_projects fs1 [''repo'', ''Team_Projects''] = Inr teams
        \<and> map team_path teams
            = [[''repo'', ''Team_Projects'', ''alpha''], [''repo'', ''Team_Projects'', ''zeta'']]
        \<and> sorted (map team_name teams)
        \<and> list_all (\<lambda>t. files t \<noteq> [] \<and> sorted_wrt doc_before (files t)) teams)"
proof -
  have h: "lookup fs1 [''repo'', ''Team_Projects''] = Some (Dir team_projects1)"
    by (simp add: fs1_def)
  have e: "sort (filter (\<lambda>d. team_directory fs1 d \<and> has_document fs1 d)
                   (children fs1 [''repo'', ''Team_Projects'']))
           = [[''repo'', ''Team_Projects'', ''alpha''], [''repo'', ''Team_Projects'', ''zeta'']]"
    by code_simp
  from discover_team_projects_spec [OF h] obtain teams where
    t: "discover_team_projects fs1 [''repo'', ''Team_Projects''] = Inr teams"
       "map team_path teams
          = sort (filter (\<lambda>d. team_directory fs1 d \<and> has_document fs1 d)
                    (children fs1 [''repo'', ''Team_Projects'']))"
       "sorted (map team_name teams)"
       "\<forall>t \<in> set teams. files t \<noteq> [] \<and> sorted_wrt doc_before (files t)"
    by blast
  from t(4) have "list_all (\<lambda>t. files t \<noteq> [] \<and> sorted_wrt doc_before (files t)) teams"
    by (simp add: list_all_iff)
  with t(1) t(2) [unfolded e] t(3)
  have "\<exists>teams. discover_team_projects fs1 [''repo'', ''Team_Projects''] = Inr teams
        \<and> map team_path teams
            = [[''repo'', ''Team_Projects'', ''alpha''], [''repo'', ''Team_Projects'', ''zeta'']]
        \<and> sorted (map team_name teams)
        \<and> list_all (\<lambda>t. files t \<noteq> [] \<and> sorted_wrt doc_before (files t)) teams"
    by (intro exI [of _ teams] conjI)
  with h show ?thesis by (rule conjI)
qed

text \<open>
  Claim C8. A directory whose name is in the denylist or starts with a dot never
  appears as a team of the discovery result, whatever it contains: no team of the
  result bears its name or has a path with that name.
\<close>

theorem denylisted_never_discovered:
  assumes "discover_team_projects fs team_src_dir = Inr teams"
    and "hidden n \<or> n \<in> skip_dirs"
  shows "n \<notin> set (map team_name teams) \<and> n \<notin> set (map name_of (map team_path teams))"
proof -
  have "\<exists>ds. teams = discover_loop fs ds"
  proof (cases "exists fs team_src_dir")
    case False
    with assms(1) have "teams = discover_loop fs []"
      by (simp add: discover_team_projects_def)
    then show ?thesis ..
  next
    case True
    with assms(1) show ?thesis
      by (auto simp: discover_team_projects_def split: sum.splits)
  qed
  then obtain ds where ds: "teams = discover_loop fs ds" ..
  have "team_name t \<noteq> n \<and> name_of (team_path t) \<noteq> n" if "t \<in> set teams" for t
    using discover_loop_member [OF that [unfolded ds]] assms(2)
    by (auto simp: team_directory_def)
  then show ?thesis by auto
qed

theorem denylisted_never_discovered_witness:
  "discover_team_projects fs1 [''repo'', ''Team_Projects''] = Inr teams1
   \<and> is_dir fs1 [''repo'', ''Team_Projects'', ''demo'']
   \<and> has_document fs1 [''repo'', ''Team_Projects'', ''demo'']
   \<and> ''demo'' \<in> skip_dirs
   \<and> ''demo'' \<notin> set (map team_name teams1)
   \<and> ''demo'' \<notin> set (map name_of (map team_path teams1))"
proof -
  note d = discover_fs1
  have s: "''demo'' \<in> skip_dirs"
    by (simp add: skip_dirs_def)
  have i: "is_dir fs1 [''repo'', ''Team_Projects'', ''demo'']"
    by code_simp
  have c: "has_document fs1 [''repo'', ''Team_Projects'', ''demo'']"
    by code_simp
  from s have "hidden ''demo'' \<or> ''demo'' \<in> skip_dirs" ..
  from denylisted_never_discovered [OF d this] d i c s show ?thesis
    by (intro conjI) (erule conjunct1 conjunct2 | assumption)+
qed

subsection \<open>The manual conversion\<close>

lemma split_nl_nonempty [simp]: "split_nl s \<noteq> []"
  by (induction s) (auto split: list.splits)

lemma split_nl_append:
  "split_nl (a @ CHR 0x0A # b) = split_nl a @ split_nl b"
  by (induction a) (auto split: list.splits)

lemma split_nl_no_newline: "CHR 0x0A \<notin> set l \<Longrightarrow> split_nl l = [l]"
  by (induction l) auto

lemma split_nl_lines: "l \<in> set (split_nl s) \<Longrightarrow> CHR 0x0A \<notin> set l"
  by (induction s arbitrary: l) (auto split: list.splits if_splits)

lemma split_nl_join:
  "xs \<noteq> [] \<Longrightarrow> split_nl (join ''\<newline>'' xs) = concat (map split_nl xs)"
  by (induction xs rule: induct_list012) (simp_all add: split_nl_append)

lemma rescan_append: "rescan st (xs @ ys) = rescan (rescan st xs) ys"
  by (induction xs arbitrary: st) auto

lemma rescan_closed_plain:
  "\<forall>l \<in> set ls. \<not> is_fence l \<Longrightarrow> rescan False ls = False"
  by (induction ls) auto

lemma yaml_line_no_newline: "CHR 0x0A \<notin> set l \<Longrightarrow> CHR 0x0A \<notin> set (yaml_line l)"
  by (auto simp: yaml_line_def dest: in_set_dropD)

lemma extract_yaml_lines:
  "x \<in> set (extract_yaml b ls) \<Longrightarrow> \<exists>l \<in> set ls. x = yaml_line l"
  by (induction b ls rule: extract_yaml.induct) (auto split: if_splits)

lemma process_lines_rescan:
  assumes "\<forall>l \<in> set ls. CHR 0x0A \<notin> set l \<and> \<not> fence_line l"
  shows "rescan in_code (concat (map split_nl (fst (process_lines in_code skip cnt ls))))
         = snd (process_lines in_code skip cnt ls)"
  using assms
proof (induction ls arbitrary: in_code skip cnt)
  case Nil
  then show ?case by simp
next
  case (Cons line rest)
  have nl: "CHR 0x0A \<notin> set line" and f1: "\<not> is_fence line" and f2: "\<not> is_fence (yaml_line line)"
    using Cons.prems by (auto simp: fence_line_def)
  have IH: "rescan b (concat (map split_nl (fst (process_lines b s c rest))))
         = snd (process_lines b s c rest)" for b s c
    using Cons.prems by (intro Cons.IH) simp
  have ne: "line \<noteq> ''```''"
    using f1 by (auto simp: is_fence_def)
  have md: "split_nl (drop 2 line) = [drop 2 line]"
    using nl by (intro split_nl_no_newline) (auto dest: in_set_dropD)
  have mdf: "prefix ''# '' line \<Longrightarrow> \<not> is_fence (drop 2 line)"
    using f2 by (simp add: yaml_line_def)
  show ?case
    using nl ne mdf
    by (simp add: emit_def IH md split_nl_no_newline is_fence_def)
qed

lemma concat_split_nl_plain:
  "\<forall>x \<in> set xs. CHR 0x0A \<notin> set x \<Longrightarrow> concat (map split_nl xs) = xs"
  by (induction xs) (auto simp: split_nl_no_newline)

lemma header_rescan:
  assumes "\<forall>l \<in> set ls. CHR 0x0A \<notin> set l \<and> \<not> fence_line l" "CHR 0x0A \<notin> set stem"
  shows "rescan False (concat (map split_nl
           ([''---''] @ (if extract_yaml False ls \<noteq> [] then extract_yaml False ls
                         else [title_line stem]) @ [''---\<newline>'']))) = False"
proof -
  have y: "\<forall>x \<in> set (extract_yaml False ls). CHR 0x0A \<notin> set x \<and> \<not> is_fence x"
    using assms(1) by (auto simp: fence_line_def dest!: extract_yaml_lines
        dest: yaml_line_no_newline)
  then have "concat (map split_nl (extract_yaml False ls)) = extract_yaml False ls"
    by (intro concat_split_nl_plain) simp
  moreover have "split_nl (title_line stem) = [title_line stem]"
    using assms(2) by (intro split_nl_no_newline) (simp add: title_line_def)
  ultimately show ?thesis
    using y by (simp add: rescan_append rescan_closed_plain is_fence_def title_line_def)
qed

lemma qmd_lines_eq:
  "qmd_lines stem content =
     [''---'']
     @ (if extract_yaml False (split_nl content) \<noteq> [] then extract_yaml False (split_nl content)
        else [title_line stem])
     @ [''---\<newline>'']
     @ fst (process_lines False True 0 (split_nl content))
     @ (if snd (process_lines False True 0 (split_nl content)) then [''```''] else [])"
  by (simp add: qmd_lines_def title_line_def Let_def)

lemma qmd_text_closed:
  assumes "\<forall>l \<in> set (split_nl content). \<not> fence_line l" "CHR 0x0A \<notin> set stem"
  shows "\<not> unclosed_region (join ''\<newline>'' (qmd_lines stem content))"
proof -
  define ls where "ls = split_nl content"
  define head where "head = [''---''] @ (if extract_yaml False ls \<noteq> [] then extract_yaml False ls
                         else [title_line stem]) @ [''---\<newline>'']"
  define body where "body = process_lines False True 0 ls"
  define tail where "tail = (if snd body then [''```''] else [])"
  have a: "\<forall>l \<in> set ls. CHR 0x0A \<notin> set l \<and> \<not> fence_line l"
    using assms(1) by (auto simp: ls_def dest: split_nl_lines)
  have q: "qmd_lines stem content = head @ fst body @ tail"
    by (simp add: qmd_lines_eq head_def body_def tail_def ls_def)
  have ne: "qmd_lines stem content \<noteq> []"
    by (simp add: qmd_lines_eq)
  have h: "rescan False (concat (map split_nl head)) = False"
    unfolding head_def using a assms(2) by (rule header_rescan)
  have b: "rescan False (concat (map split_nl (fst body))) = snd body"
    unfolding body_def using a by (rule process_lines_rescan)
  have t: "rescan (snd body) (concat (map split_nl tail)) = False"
    by (simp add: tail_def)
  have r: "rescan False (concat (map split_nl (head @ fst body @ tail))) = False"
    by (simp only: map_append concat_append rescan_append h b t)
  have "split_nl (join ''\<newline>'' (qmd_lines stem content))
      = concat (map split_nl (qmd_lines stem content))"
    using ne by (rule split_nl_join)
  then have "unclosed_region (join ''\<newline>'' (qmd_lines stem content))
      = rescan False (concat (map split_nl (head @ fst body @ tail)))"
    by (simp only: unclosed_region_def q)
  with r show ?thesis by simp
qed

lemma map_of_update_same: "map_of (AList.update k v al) k = Some v"
  by (simp add: update_conv')

lemma write_node_lookup: "write_node n p s = Inr n' \<Longrightarrow> lookup n' p = Some (File s)"
proof (induction n p s arbitrary: n' rule: write_node.induct)
  case (1 n s)
  then show ?case by (auto split: node.splits)
next
  case (2 es c cs s)
  show ?case
  proof (cases "map_of es c")
    case None
    with "2.prems" show ?thesis
      by (auto simp: map_add_def split: if_splits)
  next
    case (Some m)
    with "2.prems" obtain m' where m': "write_node m cs s = Inr m'" "n' = Dir (AList.update c m' es)"
      by (auto split: sum.splits)
    from "2.IH" [OF Some m'(1)] show ?thesis
      by (simp add: m'(2) map_of_update_same)
  qed
qed simp_all

lemma write_text_read: "write_text fs p s = Inr fs' \<Longrightarrow> read_text fs' p = Inr s"
  by (simp add: write_text_def read_text_def write_node_lookup)

lemma manual_result:
  assumes "read_text (fs_of w) py_file = Inr content"
    and "manual_jupytext_to_qmd w py_file output_dir = (w', Some q)"
  shows "q = output_dir @ [stem_of py_file @ ''.qmd'']
    \<and> read_text (fs_of w') q = Inr (join ''\<newline>'' (qmd_lines (stem_of py_file) content))"
  using assms
  by (auto simp: manual_jupytext_to_qmd_def Let_def print_def write_text_read split: sum.splits)

lemma process_lines_skip_all:
  "cnt + length (filter is_marker ls) < 2 \<Longrightarrow> process_lines b True cnt ls = ([], b)"
  by (induction ls arbitrary: cnt) auto

lemma extract_yaml_no_marker:
  "filter is_marker ls = [] \<Longrightarrow> extract_yaml True ls = map yaml_line ls"
  by (induction ls) (auto split: if_splits)

lemma extract_yaml_one_marker:
  "length (filter is_marker ls) < 2 \<Longrightarrow>
     extract_yaml False ls = map yaml_line (drop 1 (dropWhile (\<lambda>l. \<not> is_marker l) ls))"
  by (induction ls) (auto simp: extract_yaml_no_marker)

lemma qmd_lines_few_markers:
  assumes "length (filter is_marker (split_nl content)) < 2"
  shows "qmd_lines stem content
    = [''---''] @ metadata_block stem (split_nl content) @ [''---\<newline>'']"
  using assms
  by (simp add: qmd_lines_eq process_lines_skip_all extract_yaml_one_marker metadata_block_def
      Let_def)

lemma last_split_nl_join:
  assumes "xs = ys @ [l]" "CHR 0x0A \<notin> set l"
  shows "last (split_nl (join ''\<newline>'' xs)) = l"
proof -
  have "xs \<noteq> []" using assms(1) by simp
  then have "split_nl (join ''\<newline>'' xs) = concat (map split_nl xs)"
    by (rule split_nl_join)
  then show ?thesis
    using assms by (simp add: split_nl_no_newline)
qed

text \<open>
  Claim C5, amended. When, moreover, no line of the source is a fence line (none reads
  as a fence, as it stands or without its comment prefix) and the stem of the file has
  no line break, the text that a successful manual conversion writes has no unclosed
  code region when it is scanned again; and when the last cell of the source is a code
  cell, still open at the end of the input, the written text ends with the closing
  fence. This holds for properly paired cell markers and for every other arrangement
  of them.
\<close>

theorem manual_conversion_closes_regions:
  assumes "read_text (fs_of w) py_file = Inr content"
    and "\<forall>l \<in> set (split_nl content). \<not> fence_line l"
    and "CHR 0x0A \<notin> set (stem_of py_file)"
    and "manual_jupytext_to_qmd w py_file output_dir = (w', Some q)"
  shows "\<exists>text. read_text (fs_of w') q = Inr text \<and> \<not> unclosed_region text
      \<and> (snd (process_lines False True 0 (split_nl content))
           \<longrightarrow> last (split_nl text) = ''```'')"
proof -
  let ?text = "join ''\<newline>'' (qmd_lines (stem_of py_file) content)"
  from manual_result [OF assms(1,4)] have r: "read_text (fs_of w') q = Inr ?text" ..
  have c: "\<not> unclosed_region ?text"
    using assms(2,3) by (rule qmd_text_closed)
  have l: "last (split_nl ?text) = ''```''"
    if "snd (process_lines False True 0 (split_nl content))"
    by (rule last_split_nl_join) (simp_all add: qmd_lines_eq that)
  from r c l show ?thesis by blast
qed

theorem manual_conversion_closes_regions_witness:
  "read_text (fs_of world2) [''repo'', ''Team_Projects'', ''alpha'', ''nb.py''] = Inr notebook1
   \<and> properly_paired (split_nl notebook1)
   \<and> list_all (\<lambda>l. \<not> fence_line l) (split_nl notebook1)
   \<and> snd (manual_jupytext_to_qmd world2 [''repo'', ''Team_Projects'', ''alpha'', ''nb.py'']
             [''repo'', ''Team_Projects'', ''alpha''])
       = Some [''repo'', ''Team_Projects'', ''alpha'', ''nb.qmd'']
   \<and> snd (process_lines False True 0 (split_nl notebook1))
   \<and> (\<exists>text. read_text
          (fs_of (fst (manual_jupytext_to_qmd world2
             [''repo'', ''Team_Projects'', ''alpha'', ''nb.py'']
             [''repo'', ''Team_Projects'', ''alpha''])))
          [''repo'', ''Team_Projects'', ''alpha'', ''nb.qmd''] = Inr text
        \<and> \<not> unclosed_region text \<and> last (split_nl text) = ''```'')"
proof -
  let ?py = "[''repo'', ''Team_Projects'', ''alpha'', ''nb.py'']"
  let ?dir = "[''repo'', ''Team_Projects'', ''alpha'']"
  let ?q = "[''repo'', ''Team_Projects'', ''alpha'', ''nb.qmd'']"
  let ?r = "manual_jupytext_to_qmd world2 ?py ?dir"
  have h1: "read_text (fs_of world2) ?py = Inr notebook1"
    by code_simp
  have pp: "properly_paired (split_nl notebook1)"
    by code_simp
  have h2': "list_all (\<lambda>l. \<not> fence_line l) (split_nl notebook1)"
    by code_simp
  then have h2: "\<forall>l \<in> set (split_nl notebook1). \<not> fence_line l"
    by (simp only: list_all_iff)
  have h3: "CHR 0x0A \<notin> set (stem_of ?py)"
    by code_simp
  have s: "snd ?r = Some ?q"
    by code_simp
  have "?r = (fst ?r, snd ?r)"
    by (rule prod.collapse [symmetric])
  then have h4: "?r = (fst ?r, Some ?q)"
    by (simp only: s)
  have o: "snd (process_lines False True 0 (split_nl notebook1))"
    by code_simp
  from manual_conversion_closes_regions [OF h1 h2 h3 h4] obtain written where
    t: "read_text (fs_of (fst ?r)) ?q = Inr written" "\<not> unclosed_region written"
       "snd (process_lines False True 0 (split_nl notebook1))
          \<longrightarrow> last (split_nl written) = ''```''"
    by (elim exE conjE)
  from t(3) o have "last (split_nl written) = ''```''" ..
  with t(1,2) have "\<exists>text. read_text (fs_of (fst ?r)) ?q = Inr text
        \<and> \<not> unclosed_region text \<and> last (split_nl text) = ''```''"
    by (intro exI [of _ written] conjI)
  with h1 pp h2' s o show ?thesis
    by (intro conjI)
qed

text \<open>The claim as it was stated asks for properly paired cell markers and no stray
  markers only. The notebook \<open>fenced1\<close> is convertible, has the two marker lines of its
  header and the cell markers of a markdown cell, a code cell and a markdown cell, and
  a line of three backquotes inside the code cell; the manual conversion copies that
  line, which closes the region early, so that the fence written for the next markdown
  cell opens a region that nothing closes.\<close>

theorem manual_conversion_unclosed_counterexample:
  "is_jupytext_file (fs_of world4) [''repo'', ''Team_Projects'', ''alpha'', ''fenced.py'']
   \<and> properly_paired (split_nl fenced1)
   \<and> snd (manual_jupytext_to_qmd world4 [''repo'', ''Team_Projects'', ''alpha'', ''fenced.py'']
             [''repo'', ''Team_Projects'', ''alpha''])
       = Some [''repo'', ''Team_Projects'', ''alpha'', ''fenced.qmd'']
   \<and> \<not> isl (read_text
          (fs_of (fst (manual_jupytext_to_qmd world4
             [''repo'', ''Team_Projects'', ''alpha'', ''fenced.py'']
             [''repo'', ''Team_Projects'', ''alpha''])))
          [''repo'', ''Team_Projects'', ''alpha'', ''fenced.qmd''])
   \<and> unclosed_region (projr (read_text
          (fs_of (fst (manual_jupytext_to_qmd world4
             [''repo'', ''Team_Projects'', ''alpha'', ''fenced.py'']
             [''repo'', ''Team_Projects'', ''alpha''])))
          [''repo'', ''Team_Projects'', ''alpha'', ''fenced.qmd'']))"
proof -
  have 1: "is_jupytext_file (fs_of world4) [''repo'', ''Team_Projects'', ''alpha'', ''fenced.py'']"
    by code_simp
  have 2: "properly_paired (split_nl fenced1)"
    by code_simp
  have 3: "snd (manual_jupytext_to_qmd world4 [''repo'', ''Team_Projects'', ''alpha'', ''fenced.py'']
             [''repo'', ''Team_Projects'', ''alpha''])
       = Some [''repo'', ''Team_Projects'', ''alpha'', ''fenced.qmd'']"
    by code_simp
  have 4: "\<not> isl (read_text
          (fs_of (fst (manual_jupytext_to_qmd world4
             [''repo'', ''Team_Projects'', ''alpha'', ''fenced.py'']
             [''repo'', ''Team_Projects'', ''alpha''])))
          [''repo'', ''Team_Projects'', ''alpha'', ''fenced.qmd''])"
    by code_simp
  have 5: "unclosed_region (projr (read_text
          (fs_of (fst (manual_jupytext_to_qmd world4
             [''repo'', ''Team_Projects'', ''alpha'', ''fenced.py'']
             [''repo'', ''Team_Projects'', ''alpha''])))
          [''repo'', ''Team_Projects'', ''alpha'', ''fenced.qmd'']))"
    by code_simp
  from 1 2 3 4 5 show ?thesis
    by (intro conjI)
qed

text \<open>
  Claim C9. For a convertible \<open>.py\<close> file with fewer than two marker lines, the manual
  conversion skips every line of the body: the lines it produces are the opening
  \<open>---\<close>, the metadata block (the lines after the only marker line without their
  comment prefix, or a title made from the stem) and the closing \<open>---\<close>, and this is
  the text that a successful conversion writes.
\<close>

theorem few_markers_only_metadata:
  assumes "is_jupytext_file (fs_of w) py_file"
    and "read_text (fs_of w) py_file = Inr content"
    and "length (filter is_marker (split_nl content)) < 2"
  shows "qmd_lines (stem_of py_file) content
      = [''---''] @ metadata_block (stem_of py_file) (split_nl content) @ [''---\<newline>'']
    \<and> (\<forall>w' q. manual_jupytext_to_qmd w py_file output_dir = (w', Some q) \<longrightarrow>
          read_text (fs_of w') q
            = Inr (join ''\<newline>'' ([''---''] @ metadata_block (stem_of py_file) (split_nl content)
                                @ [''---\<newline>''])))"
proof -
  have q: "qmd_lines (stem_of py_file) content
      = [''---''] @ metadata_block (stem_of py_file) (split_nl content) @ [''---\<newline>'']"
    using assms(3) by (rule qmd_lines_few_markers)
  have "read_text (fs_of w') p
      = Inr (join ''\<newline>'' ([''---''] @ metadata_block (stem_of py_file) (split_nl content)
                                @ [''---\<newline>'']))"
    if "manual_jupytext_to_qmd w py_file output_dir = (w', Some p)" for w' p
  proof -
    from manual_result [OF assms(2) that]
    have "read_text (fs_of w') p = Inr (join ''\<newline>'' (qmd_lines (stem_of py_file) content))"
      by (rule conjunct2)
    then show ?thesis by (simp only: q)
  qed
  with q show ?thesis by blast
qed

theorem few_markers_only_metadata_witness:
  "is_jupytext_file (fs_of world2) [''repo'', ''Team_Projects'', ''alpha'', ''inline.py'']
   \<and> read_text (fs_of world2) [''repo'', ''Team_Projects'', ''alpha'', ''inline.py'']
       = Inr inline1
   \<and> length (filter is_marker (split_nl inline1)) = 0
   \<and> qmd_lines ''inline'' inline1 = [''---'', title_line ''inline'', ''---\<newline>'']"
proof -
  let ?py = "[''repo'', ''Team_Projects'', ''alpha'', ''inline.py'']"
  have h1: "is_jupytext_file (fs_of world2) ?py"
    by code_simp
  have h2: "read_text (fs_of world2) ?py = Inr inline1"
    by code_simp
  have h3': "length (filter is_marker (split_nl inline1)) = 0"
    by code_simp
  then have h3: "length (filter is_marker (split_nl inline1)) < 2"
    by simp
  have st: "stem_of ?py = ''inline''"
    by code_simp
  have m: "metadata_block ''inline'' (split_nl inline1) = [title_line ''inline'']"
    by code_simp
  from few_markers_only_metadata [OF h1 h2 h3]
  have "qmd_lines (stem_of ?py) inline1
      = [''---''] @ metadata_block (stem_of ?py) (split_nl inline1) @ [''---\<newline>'']" ..
  then have "qmd_lines ''inline'' inline1 = [''---'', title_line ''inline'', ''---\<newline>'']"
    by (simp only: st m append_Cons append_Nil)
  with h1 h2 h3' show ?thesis
    by (intro conjI)
qed


subsection \<open>The landing page\<close>

lemma file_links_below_root:
  "\<forall>f \<in> set fls. prefix root (doc_path f) \<Longrightarrow>
     file_links root fls = Inr (concat (map (document_link root) fls))"
  by (induction fls) (simp_all add: relative_to_def document_link_def)

lemma team_sections_below_root:
  "\<forall>t \<in> set teams. \<forall>f \<in> set (files t). prefix root (doc_path f) \<Longrightarrow>
     team_sections root teams = Inr (concat (map (team_section root) teams))"
  by (induction teams) (simp_all add: file_links_below_root team_section_def)


text \<open>
  Claim C6, amended. When \<open>index.html\<close> is absent at the root (and the documents lie
  below the root, as discovered documents do), the landing page is the front matter
  with the fixed default title, an empty body and the "Team Projects" section: one
  heading per team followed by one link per document with the display name and the
  path relative to the root, whenever teams exist. The default description is not
  part of the page.
\<close>

theorem landing_page_without_index_html:
  assumes "\<not> exists fs (root @ [''index.html''])"
    and "\<forall>t \<in> set teams. \<forall>f \<in> set (files t). prefix root (doc_path f)"
  shows "create_index_qmd fs root teams
      = Inr (default_page_head @ [] @ ''\<newline>\<newline>'' @ team_projects_section root teams @ ''\<newline>'')"
  using assms
  by (simp add: create_index_qmd_def team_sections_below_root team_projects_section_def
      default_page_head_def)


theorem landing_page_without_index_html_witness:
  "\<not> exists fs1 [''repo'', ''index.html'']
   \<and> list_all (\<lambda>t. list_all (\<lambda>f. prefix [''repo''] (doc_path f)) (files t)) teams1
   \<and> create_index_qmd fs1 [''repo''] teams1
       = Inr (default_page_head @ [] @ ''\<newline>\<newline>'' @ team_projects_section [''repo''] teams1 @ ''\<newline>'')
   \<and> contains ''## Team Projects'' (team_projects_section [''repo''] teams1)
   \<and> contains ''- [notes](Team_Projects/alpha/notes.md)'' (team_projects_section [''repo''] teams1)"
proof -
  have h1': "\<not> exists fs1 [''repo'', ''index.html'']"
    by code_simp
  then have h1: "\<not> exists fs1 ([''repo''] @ [''index.html''])"
    by simp
  have h2': "list_all (\<lambda>t. list_all (\<lambda>f. prefix [''repo''] (doc_path f)) (files t)) teams1"
    by code_simp
  then have h2: "\<forall>t \<in> set teams1. \<forall>f \<in> set (files t). prefix [''repo''] (doc_path f)"
    by (simp only: list_all_iff)
  have c1: "contains ''## Team Projects'' (team_projects_section [''repo''] teams1)"
    by code_simp
  have c2: "contains ''- [notes](Team_Projects/alpha/notes.md)''
      (team_projects_section [''repo''] teams1)"
    by code_simp
  from landing_page_without_index_html [OF h1 h2] h1' h2' c1 c2 show ?thesis
    by (intro conjI)
qed

text \<open>The claim as it was stated asks for the default description in the page; the
  page of the example repository, which has no \<open>index.html\<close>, does not contain it.\<close>

theorem landing_page_description_counterexample:
  "\<not> exists fs1 [''repo'', ''index.html'']
   \<and> \<not> isl (create_index_qmd fs1 [''repo''] teams1)
   \<and> \<not> contains ''Welcome to the 2025 World Bank Data Dive!''
         (projr (create_index_qmd fs1 [''repo''] teams1))"
  by code_simp


subsection \<open>The conversion\<close>

lemma manual_prints_manual_message:
  "manual_message (last (console (fst (manual_jupytext_to_qmd w py_file output_dir))))"
  by (simp add: manual_jupytext_to_qmd_def print_def manual_message_def Let_def
      split: sum.splits)

lemma subprocess_run_found:
  "env exe = Some prog \<Longrightarrow> subprocess_run env exe args cwd fs = Some (prog (exe # args) cwd fs)"
  by (simp add: subprocess_run_def)

lemma subprocess_run_missing: "env exe = None \<Longrightarrow> subprocess_run env exe args cwd fs = None"
  by (simp add: subprocess_run_def)

lemma convert_found:
  assumes "env ''jupytext'' = Some prog"
    and "prog (''jupytext'' # jupytext_args (output_dir @ [stem_of py_file @ ''.qmd'']) py_file)
           None (fs_of w) = (result, fs')"
  shows "convert_jupytext_to_qmd env w py_file output_dir =
     (if returncode result = 0 \<and> exists fs' (output_dir @ [stem_of py_file @ ''.qmd''])
      then (print (''  Converted: '' @ name_of py_file @ '' -> ''
                    @ name_of (output_dir @ [stem_of py_file @ ''.qmd'']))
              (w\<lparr>fs_of := fs'\<rparr>),
            Some (output_dir @ [stem_of py_file @ ''.qmd'']))
      else (print (''    '' @ stderr result)
              (print (''  Warning: jupytext conversion failed for '' @ name_of py_file)
                 (w\<lparr>fs_of := fs'\<rparr>)),
            None))"
  using assms
  by (simp add: convert_jupytext_to_qmd_def Let_def subprocess_run_found)

lemma convert_missing:
  "env ''jupytext'' = None \<Longrightarrow>
     convert_jupytext_to_qmd env w py_file output_dir = manual_jupytext_to_qmd w py_file output_dir"
  by (simp add: convert_jupytext_to_qmd_def Let_def subprocess_run_missing)


text \<open>
  Claim C3. When the converter is found, it runs once; the conversion returns the
  path \<open><stem>.qmd\<close> in the output directory exactly when the exit code is zero and
  that file exists afterwards, and \<open>None\<close> for every other outcome; the filesystem is
  the one the converter left (no second run, no fallback). The caller gives the
  document the new path and the type \<open>quarto\<close> in the first case and leaves it as it
  is in the second.
\<close>

theorem external_conversion_result:
  assumes "env ''jupytext'' = Some prog"
    and "prog (''jupytext'' # jupytext_args (output_dir @ [stem_of py_file @ ''.qmd'']) py_file)
           None (fs_of w) = (result, fs')"
  shows "snd (convert_jupytext_to_qmd env w py_file output_dir)
      = (if returncode result = 0 \<and> exists fs' (output_dir @ [stem_of py_file @ ''.qmd''])
         then Some (output_dir @ [stem_of py_file @ ''.qmd'']) else None)
    \<and> fs_of (fst (convert_jupytext_to_qmd env w py_file output_dir)) = fs'
    \<and> (\<forall>f. doc_type f = Jupytext \<and> doc_path f = py_file \<and> parent_of py_file = output_dir \<longrightarrow>
          snd (convert_file env w f)
            = (if returncode result = 0 \<and> exists fs' (output_dir @ [stem_of py_file @ ''.qmd''])
               then f\<lparr>doc_path := output_dir @ [stem_of py_file @ ''.qmd''], doc_type := Quarto\<rparr>
               else f))"
proof -
  note c = convert_found [where env = env and prog = prog and w = w and py_file = py_file
      and output_dir = output_dir and result = result and fs' = fs', OF assms]
  show ?thesis
    by (simp add: c convert_file_def print_def)
qed

theorem external_conversion_result_witness:
  "snd (convert_jupytext_to_qmd (env_with failing_tool) world1 b_py zeta_dir) = None
   \<and> snd (convert_file (env_with failing_tool) world1 (mk_document Jupytext b_py))
       = mk_document Jupytext b_py
   \<and> snd (convert_jupytext_to_qmd (env_with (writing_tool b_qmd)) world1 b_py zeta_dir)
       = Some b_qmd
   \<and> snd (convert_file (env_with (writing_tool b_qmd)) world1 (mk_document Jupytext b_py))
       = (mk_document Jupytext b_py)\<lparr>doc_path := b_qmd, doc_type := Quarto\<rparr>"
proof -
  define f where "f = mk_document Jupytext b_py"
  have t: "doc_type f = Jupytext \<and> doc_path f = b_py \<and> parent_of b_py = zeta_dir"
    by (simp add: f_def mk_document_def b_py_def zeta_dir_def parent_of_def)
  have o: "zeta_dir @ [stem_of b_py @ ''.qmd''] = b_qmd"
    by code_simp
  let ?args = "''jupytext'' # jupytext_args (zeta_dir @ [stem_of b_py @ ''.qmd'']) b_py"
  have e1: "env_with failing_tool ''jupytext'' = Some failing_tool"
    by (simp add: env_with_def)
  have r1: "failing_tool ?args None (fs_of world1)
      = (\<lparr>returncode = 1, stdout = [], stderr = ''boom''\<rparr>, fs_of world1)"
    by (simp add: failing_tool_def)
  have e2: "env_with (writing_tool b_qmd) ''jupytext'' = Some (writing_tool b_qmd)"
    by (simp add: env_with_def)
  have r2: "writing_tool b_qmd ?args None (fs_of world1)
      = (fst (writing_tool b_qmd ?args None (fs_of world1)),
         snd (writing_tool b_qmd ?args None (fs_of world1)))"
    by (rule prod.collapse [symmetric])
  have rc: "returncode (fst (writing_tool b_qmd ?args None (fs_of world1))) = 0"
    by code_simp
  have ex: "exists (snd (writing_tool b_qmd ?args None (fs_of world1))) b_qmd"
    by code_simp
  note a = external_conversion_result [where env = "env_with failing_tool"
      and prog = failing_tool and w = world1 and py_file = b_py and output_dir = zeta_dir,
      OF e1 r1]
  note b = external_conversion_result [where env = "env_with (writing_tool b_qmd)"
      and prog = "writing_tool b_qmd" and w = world1 and py_file = b_py
      and output_dir = zeta_dir, OF e2 r2]
  from a have a1: "snd (convert_jupytext_to_qmd (env_with failing_tool) world1 b_py zeta_dir) = None"
    by simp
  from a t have a2: "snd (convert_file (env_with failing_tool) world1 f) = f"
    by simp
  from b have b1: "snd (convert_jupytext_to_qmd (env_with (writing_tool b_qmd)) world1 b_py zeta_dir)
      = Some b_qmd"
    using rc ex by (simp add: o)
  from b t have b2: "snd (convert_file (env_with (writing_tool b_qmd)) world1 f)
      = f\<lparr>doc_path := b_qmd, doc_type := Quarto\<rparr>"
    using rc ex by (simp add: o)
  from a1 a2 b1 b2 show ?thesis
    unfolding f_def by (intro conjI)
qed

text \<open>
  Claim C7. The manual conversion runs exactly when no converter executable is found:
  then the conversion is the manual one, and otherwise the filesystem is the one the
  converter left and nothing was printed by the manual conversion, whatever the exit
  code and whether or not the output exists.
\<close>

theorem manual_fallback_only_when_missing:
  "(env ''jupytext'' = None \<longrightarrow>
      convert_jupytext_to_qmd env w py_file output_dir
        = manual_jupytext_to_qmd w py_file output_dir)
   \<and> (manual_message (last (console (fst (convert_jupytext_to_qmd env w py_file output_dir))))
        \<longleftrightarrow> env ''jupytext'' = None)
   \<and> (\<forall>prog. env ''jupytext'' = Some prog \<longrightarrow>
        fs_of (fst (convert_jupytext_to_qmd env w py_file output_dir))
          = snd (prog (''jupytext'' # jupytext_args (output_dir @ [stem_of py_file @ ''.qmd''])
                         py_file) None (fs_of w)))"
proof (cases "env ''jupytext''")
  case None
  then show ?thesis
    by (simp add: convert_missing manual_prints_manual_message)
next
  case (Some prog)
  obtain result fs' where
    r: "prog (''jupytext'' # jupytext_args (output_dir @ [stem_of py_file @ ''.qmd'']) py_file)
          None (fs_of w) = (result, fs')"
    by (cases "prog (''jupytext'' # jupytext_args (output_dir @ [stem_of py_file @ ''.qmd''])
          py_file) None (fs_of w)")
  note c = convert_found [where env = env and prog = prog and w = w and py_file = py_file
      and output_dir = output_dir and result = result and fs' = fs', OF Some r]
  show ?thesis
    by (simp add: Some c r print_def manual_message_def)
qed

theorem manual_fallback_only_when_missing_witness:
  "env_none ''jupytext'' = None
   \<and> convert_jupytext_to_qmd env_none world1 b_py zeta_dir
       = manual_jupytext_to_qmd world1 b_py zeta_dir
   \<and> manual_message (last (console (fst (convert_jupytext_to_qmd env_none world1 b_py zeta_dir))))
   \<and> env_with failing_tool ''jupytext'' = Some failing_tool
   \<and> \<not> manual_message
         (last (console (fst (convert_jupytext_to_qmd (env_with failing_tool) world1 b_py zeta_dir))))"
proof -
  have e1: "env_none ''jupytext'' = None"
    by (simp add: env_none_def)
  have e2: "env_with failing_tool ''jupytext'' = Some failing_tool"
    by (simp add: env_with_def)
  note a = manual_fallback_only_when_missing [of env_none world1 b_py zeta_dir]
  note b = manual_fallback_only_when_missing [of "env_with failing_tool" world1 b_py zeta_dir]
  from a have "env_none ''jupytext'' = None \<longrightarrow>
      convert_jupytext_to_qmd env_none world1 b_py zeta_dir
        = manual_jupytext_to_qmd world1 b_py zeta_dir"
    by (rule conjunct1)
  from this e1 have a1: "convert_jupytext_to_qmd env_none world1 b_py zeta_dir
       = manual_jupytext_to_qmd world1 b_py zeta_dir"
    by (rule mp)
  from a have "manual_message (last (console (fst (convert_jupytext_to_qmd env_none world1 b_py zeta_dir))))
      \<longleftrightarrow> env_none ''jupytext'' = None"
    by (rule conjunct1 [OF conjunct2])
  from this e1 have a2: "manual_message (last (console (fst (convert_jupytext_to_qmd env_none world1 b_py zeta_dir))))"
    by (rule iffD2)
  from b have b_iff: "manual_message
         (last (console (fst (convert_jupytext_to_qmd (env_with failing_tool) world1 b_py zeta_dir))))
      \<longleftrightarrow> env_with failing_tool ''jupytext'' = None"
    by (rule conjunct1 [OF conjunct2])
  have b1: "\<not> manual_message
         (last (console (fst (convert_jupytext_to_qmd (env_with failing_tool) world1 b_py zeta_dir))))"
    unfolding b_iff e2 by simp
  from e1 a1 a2 e2 b1 show ?thesis
    by (intro conjI)
qed



subsection \<open>The run and the renderer\<close>

lemma map_of_update_other: "a \<noteq> b \<Longrightarrow> map_of (AList.update a v al) b = map_of al b"
  by (simp add: update_conv')

lemma write_node_lookup_sibling:
  "write_node n (d @ [a]) s = Inr n' \<Longrightarrow> a \<noteq> b \<Longrightarrow> lookup n' (d @ [b]) = lookup n (d @ [b])"
proof (induction d arbitrary: n n')
  case Nil
  then obtain es where n: "n = Dir es"
    by (cases n) auto
  show ?case
  proof (cases "map_of es a")
    case None
    with Nil n show ?thesis
      by (auto simp: map_add_def split: option.splits)
  next
    case (Some m)
    with Nil n show ?thesis
      by (auto simp: map_of_update_other split: sum.splits)
  qed
next
  case (Cons c cs)
  then obtain es where n: "n = Dir es"
    by (cases n) auto
  show ?case
  proof (cases "map_of es c")
    case None
    with Cons.prems n show ?thesis by simp
  next
    case (Some m)
    with Cons.prems n obtain m' where
      m': "write_node m (cs @ [a]) s = Inr m'" "n' = Dir (AList.update c m' es)"
      by (auto split: sum.splits)
    from Cons.IH [OF m'(1) Cons.prems(2)] show ?thesis
      by (simp add: n m'(2) Some map_of_update_same)
  qed
qed

lemma write_text_read_sibling:
  "write_text fs (d @ [a]) s = Inr fs' \<Longrightarrow> a \<noteq> b \<Longrightarrow> read_text fs' (d @ [b]) = read_text fs (d @ [b])"
  by (simp add: write_text_def read_text_def write_node_lookup_sibling)

lemma fs_of_print [simp]: "fs_of (print s w) = fs_of w"
  by (simp add: print_def)

lemma console_print [simp]: "console (print s w) = console w @ [s]"
  by (simp add: print_def)

lemma prepare_site_written:
  assumes "prepare_site env root w = Inr (w10, teams)"
  shows "\<exists>yml idx. generate_quarto_yml root teams = Inr yml
      \<and> read_text (fs_of w10) (root @ [''_quarto.yml'']) = Inr yml
      \<and> read_text (fs_of w10) (root @ [''index.qmd'']) = Inr idx"
proof -
  from assms obtain fs7 yml fs8 idx fs10 where
    g: "generate_quarto_yml root teams = Inr yml"
    and w8: "write_text fs7 (root @ [''_quarto.yml'']) yml = Inr fs8"
    and w10: "write_text fs8 (root @ [''index.qmd'']) idx = Inr fs10"
    and f: "fs_of w10 = fs10"
    unfolding prepare_site_def Let_def
    by (fastforce split: sum.splits prod.splits)
  have "read_text fs10 (root @ [''_quarto.yml'']) = read_text fs8 (root @ [''_quarto.yml''])"
    using w10 by (rule write_text_read_sibling) simp
  also have "\<dots> = Inr yml"
    using w8 by (rule write_text_read)
  finally have 1: "read_text (fs_of w10) (root @ [''_quarto.yml'']) = Inr yml"
    by (simp add: f)
  have 2: "read_text (fs_of w10) (root @ [''index.qmd'']) = Inr idx"
    unfolding f using w10 by (rule write_text_read)
  from g 1 2 show ?thesis by blast
qed

lemma render_missing:
  assumes "env ''quarto'' = None"
  shows "run_quarto_render env w root
     = (w\<lparr>console := console w @ [''\<newline>Running Quarto render...'', quarto_missing_text]\<rparr>, False)"
  using assms
  by (simp add: run_quarto_render_def subprocess_run_missing print_def Let_def
      quarto_missing_text_def)

lemma render_found:
  assumes "env ''quarto'' = Some prog"
    and "prog [''quarto'', ''render''] (Some root) (fs_of w) = (result, fs')"
  shows "snd (run_quarto_render env w root) = (returncode result = 0)
    \<and> fs_of (fst (run_quarto_render env w root)) = fs'
    \<and> (returncode result \<noteq> 0 \<longrightarrow>
          ''Quarto render failed with exit code '' @ str_int (returncode result)
            \<in> set (console (fst (run_quarto_render env w root))))"
proof -
  have s: "subprocess_run env ''quarto'' [''render''] (Some root) (fs_of w) = Some (result, fs')"
    using assms by (simp add: subprocess_run_def)
  show ?thesis
    by (simp add: run_quarto_render_def s print_def Let_def)
qed

lemma read_text_exists: "read_text fs p = Inr s \<Longrightarrow> exists fs p"
  by (auto simp: read_text_def exists_def split: option.splits)

lemma build_site_eq:
  assumes "root = get_root_dir script_file cwd"
    and "prepare_site env root w = Inr (w10, teams)"
    and "run_quarto_render env w10 root = (w11, success)"
  shows "build_site env script_file cwd w
     = (if success
        then Inr (print (''\<newline>Build complete! Output in: '' @ str_path (root @ [''docs''])) w11, 0)
        else Inr (print ''\<newline>Build failed!'' w11, 1))"
  using assms by (simp add: build_site_def Let_def)


text \<open>
  Claim C4. When the run reaches the render step, the configuration file and the
  landing page have been written below the root. If then the renderer executable is
  absent, or the renderer exits with a nonzero code, the run reports the failure and
  the process ends with status 1; if the renderer exits with zero, the last text
  printed names the output location and the status is 0.
\<close>

theorem render_step_outcome:
  assumes "root = get_root_dir script_file cwd"
    and "prepare_site env root w = Inr (w10, teams)"
  shows "(\<exists>yml idx. generate_quarto_yml root teams = Inr yml
            \<and> read_text (fs_of w10) (root @ [''_quarto.yml'']) = Inr yml
            \<and> read_text (fs_of w10) (root @ [''index.qmd'']) = Inr idx)
    \<and> (env ''quarto'' = None \<longrightarrow>
          (\<exists>wf. build_site env script_file cwd w = Inr (wf, 1)
             \<and> fs_of wf = fs_of w10
             \<and> console wf = console w10
                 @ [''\<newline>Running Quarto render...'', quarto_missing_text, ''\<newline>Build failed!'']))
    \<and> (\<forall>prog result fs'.
          env ''quarto'' = Some prog
          \<and> prog [''quarto'', ''render''] (Some root) (fs_of w10) = (result, fs') \<longrightarrow>
            (returncode result \<noteq> 0 \<longrightarrow>
               (\<exists>wf. build_site env script_file cwd w = Inr (wf, 1)
                  \<and> last (console wf) = ''\<newline>Build failed!''
                  \<and> ''Quarto render failed with exit code '' @ str_int (returncode result)
                      \<in> set (console wf)))
          \<and> (returncode result = 0 \<longrightarrow>
               (\<exists>wf. build_site env script_file cwd w = Inr (wf, 0)
                  \<and> last (console wf)
                      = ''\<newline>Build complete! Output in: '' @ str_path (root @ [''docs'']))))"
proof (intro conjI allI impI)
  show "\<exists>yml idx. generate_quarto_yml root teams = Inr yml
            \<and> read_text (fs_of w10) (root @ [''_quarto.yml'']) = Inr yml
            \<and> read_text (fs_of w10) (root @ [''index.qmd'']) = Inr idx"
    using assms(2) by (rule prepare_site_written)
next
  assume "env ''quarto'' = None"
  then have "run_quarto_render env w10 root
     = (w10\<lparr>console := console w10 @ [''\<newline>Running Quarto render...'', quarto_missing_text]\<rparr>,
        False)"
    by (rule render_missing)
  from build_site_eq [OF assms this]
  show "\<exists>wf. build_site env script_file cwd w = Inr (wf, 1)
             \<and> fs_of wf = fs_of w10
             \<and> console wf = console w10
                 @ [''\<newline>Running Quarto render...'', quarto_missing_text, ''\<newline>Build failed!'']"
    by simp
next
  fix prog result fs'
  assume a: "env ''quarto'' = Some prog
      \<and> prog [''quarto'', ''render''] (Some root) (fs_of w10) = (result, fs')"
  obtain w11 success where rq: "run_quarto_render env w10 root = (w11, success)"
    by (cases "run_quarto_render env w10 root")
  from a have e: "env ''quarto'' = Some prog"
    and p: "prog [''quarto'', ''render''] (Some root) (fs_of w10) = (result, fs')"
    by blast+
  from render_found [where env = env and prog = prog and root = root and w = w10
      and result = result and fs' = fs', OF e p]
  have r: "success = (returncode result = 0)"
    and c: "returncode result \<noteq> 0 \<longrightarrow>
          ''Quarto render failed with exit code '' @ str_int (returncode result)
            \<in> set (console w11)"
    by (simp_all add: rq)
  note b = build_site_eq [OF assms rq]
  {
    assume n: "returncode result \<noteq> 0"
    with r c b show "\<exists>wf. build_site env script_file cwd w = Inr (wf, 1)
                  \<and> last (console wf) = ''\<newline>Build failed!''
                  \<and> ''Quarto render failed with exit code '' @ str_int (returncode result)
                      \<in> set (console wf)"
      by simp
  }
  {
    assume z: "returncode result = 0"
    with r b show "\<exists>wf. build_site env script_file cwd w = Inr (wf, 0)
                  \<and> last (console wf)
                      = ''\<newline>Build complete! Output in: '' @ str_path (root @ [''docs''])"
      by simp
  }
qed

theorem render_step_outcome_witness:
  "env_none ''quarto'' = None
   \<and> \<not> isl (prepare_site env_none [''repo''] world1)
   \<and> (\<exists>wf. build_site env_none build_py [''tmp''] world1 = Inr (wf, 1)
         \<and> last (console wf) = ''\<newline>Build failed!''
         \<and> exists (fs_of wf) [''repo'', ''_quarto.yml'']
         \<and> exists (fs_of wf) [''repo'', ''index.qmd''])
   \<and> (\<exists>wf. build_site (env_render failing_tool) build_py [''tmp''] world1 = Inr (wf, 1)
         \<and> last (console wf) = ''\<newline>Build failed!'')
   \<and> (\<exists>wf. build_site (env_render idle_tool) build_py [''tmp''] world1 = Inr (wf, 0)
         \<and> last (console wf) = ''\<newline>Build complete! Output in: /repo/docs'')"
proof -
  let ?P = "prepare_site env_none [''repo''] world1"
  have e: "env_none ''quarto'' = None"
    by (simp add: env_none_def)
  have r: "[''repo''] = get_root_dir build_py [''tmp'']"
    by code_simp
  have i: "\<not> isl ?P"
    by code_simp
  then have p: "?P = Inr (fst (projr ?P), snd (projr ?P))"
    by (cases ?P) simp_all
  note t = render_step_outcome [OF r p]
  from t obtain yml idx where
    y: "read_text (fs_of (fst (projr ?P))) ([''repo''] @ [''_quarto.yml'']) = Inr yml"
    and x: "read_text (fs_of (fst (projr ?P))) ([''repo''] @ [''index.qmd'']) = Inr idx"
    by (elim conjE exE)
  from t have "env_none ''quarto'' = None \<longrightarrow>
          (\<exists>wf. build_site env_none build_py [''tmp''] world1 = Inr (wf, 1)
             \<and> fs_of wf = fs_of (fst (projr ?P))
             \<and> console wf = console (fst (projr ?P))
                 @ [''\<newline>Running Quarto render...'', quarto_missing_text, ''\<newline>Build failed!''])"
    by (rule conjunct1 [OF conjunct2])
  from this e obtain wf where
    b: "build_site env_none build_py [''tmp''] world1 = Inr (wf, 1)"
    and f: "fs_of wf = fs_of (fst (projr ?P))"
    and c: "console wf = console (fst (projr ?P))
                 @ [''\<newline>Running Quarto render...'', quarto_missing_text, ''\<newline>Build failed!'']"
    by (elim impE exE conjE)
  from c have l: "last (console wf) = ''\<newline>Build failed!''"
    by simp
  from y have ey: "exists (fs_of wf) [''repo'', ''_quarto.yml'']"
    unfolding f by (auto dest: read_text_exists)
  from x have ex: "exists (fs_of wf) [''repo'', ''index.qmd'']"
    unfolding f by (auto dest: read_text_exists)
  from b l ey ex have 1: "\<exists>wf. build_site env_none build_py [''tmp''] world1 = Inr (wf, 1)
         \<and> last (console wf) = ''\<newline>Build failed!''
         \<and> exists (fs_of wf) [''repo'', ''_quarto.yml'']
         \<and> exists (fs_of wf) [''repo'', ''index.qmd'']"
    by (intro exI [of _ wf] conjI)
  have 2: "\<exists>wf. build_site (env_render failing_tool) build_py [''tmp''] world1 = Inr (wf, 1)
         \<and> last (console wf) = ''\<newline>Build failed!''"
  proof -
    let ?Q = "prepare_site (env_render failing_tool) [''repo''] world1"
    have "\<not> isl ?Q"
      by code_simp
    then have q: "?Q = Inr (fst (projr ?Q), snd (projr ?Q))"
      by (cases ?Q) simp_all
    have eq: "env_render failing_tool ''quarto'' = Some failing_tool
        \<and> failing_tool [''quarto'', ''render''] (Some [''repo'']) (fs_of (fst (projr ?Q)))
            = (\<lparr>returncode = 1, stdout = [], stderr = ''boom''\<rparr>, fs_of (fst (projr ?Q)))"
      by (simp add: env_render_def failing_tool_def)
    from render_step_outcome [OF r q]
    have "\<forall>prog result fs'.
          env_render failing_tool ''quarto'' = Some prog
          \<and> prog [''quarto'', ''render''] (Some [''repo'']) (fs_of (fst (projr ?Q))) = (result, fs') \<longrightarrow>
            (returncode result \<noteq> 0 \<longrightarrow>
               (\<exists>wf. build_site (env_render failing_tool) build_py [''tmp''] world1 = Inr (wf, 1)
                  \<and> last (console wf) = ''\<newline>Build failed!''
                  \<and> ''Quarto render failed with exit code '' @ str_int (returncode result)
                      \<in> set (console wf)))
          \<and> (returncode result = 0 \<longrightarrow>
               (\<exists>wf. build_site (env_render failing_tool) build_py [''tmp''] world1 = Inr (wf, 0)
                  \<and> last (console wf)
                      = ''\<newline>Build complete! Output in: '' @ str_path ([''repo''] @ [''docs''])))"
      by (rule conjunct2 [OF conjunct2])
    from this [rule_format, OF eq] obtain wf where
      "build_site (env_render failing_tool) build_py [''tmp''] world1 = Inr (wf, 1)"
      "last (console wf) = ''\<newline>Build failed!''"
      by auto
    then show ?thesis
      by (intro exI [of _ wf] conjI)
  qed
  have 3: "\<exists>wf. build_site (env_render idle_tool) build_py [''tmp''] world1 = Inr (wf, 0)
         \<and> last (console wf) = ''\<newline>Build complete! Output in: /repo/docs''"
  proof -
    let ?Q = "prepare_site (env_render idle_tool) [''repo''] world1"
    have "\<not> isl ?Q"
      by code_simp
    then have q: "?Q = Inr (fst (projr ?Q), snd (projr ?Q))"
      by (cases ?Q) simp_all
    have eq: "env_render idle_tool ''quarto'' = Some idle_tool
        \<and> idle_tool [''quarto'', ''render''] (Some [''repo'']) (fs_of (fst (projr ?Q)))
            = (\<lparr>returncode = 0, stdout = [], stderr = []\<rparr>, fs_of (fst (projr ?Q)))"
      by (simp add: env_render_def idle_tool_def)
    have sp: "str_path ([''repo''] @ [''docs'']) = ''/repo/docs''"
      by code_simp
    from render_step_outcome [OF r q]
    have "\<forall>prog result fs'.
          env_render idle_tool ''quarto'' = Some prog
          \<and> prog [''quarto'', ''render''] (Some [''repo'']) (fs_of (fst (projr ?Q))) = (result, fs') \<longrightarrow>
            (returncode result \<noteq> 0 \<longrightarrow>
               (\<exists>wf. build_site (env_render idle_tool) build_py [''tmp''] world1 = Inr (wf, 1)
                  \<and> last (console wf) = ''\<newline>Build failed!''
                  \<and> ''Quarto render failed with exit code '' @ str_int (returncode result)
                      \<in> set (console wf)))
          \<and> (returncode result = 0 \<longrightarrow>
               (\<exists>wf. build_site (env_render idle_tool) build_py [''tmp''] world1 = Inr (wf, 0)
                  \<and> last (console wf)
                      = ''\<newline>Build complete! Output in: '' @ str_path ([''repo''] @ [''docs''])))"
      by (rule conjunct2 [OF conjunct2])
    from this [rule_format, OF eq] obtain wf where
      "build_site (env_render idle_tool) build_py [''tmp''] world1 = Inr (wf, 0)"
      "last (console wf) = ''\<newline>Build complete! Output in: '' @ str_path ([''repo''] @ [''docs''])"
      by auto
    then show ?thesis
      unfolding sp by (intro exI [of _ wf] conjI) simp_all
  qed
  from e i 1 2 3 show ?thesis
    by (intro conjI)
qed



subsection \<open>Two documents of one stem\<close>

lemma stem_of_name_ext:
  assumes "x \<noteq> []" "CHR ''.'' \<notin> set e" "e \<noteq> []"
  shows "stem_of_name (x @ ''.'' @ e) = x"
proof -
  have "takeWhile (\<lambda>c. c \<noteq> CHR ''.'') (rev e @ CHR ''.'' # rev x)
      = rev e @ takeWhile (\<lambda>c. c \<noteq> CHR ''.'') (CHR ''.'' # rev x)"
    using assms(2) by (intro takeWhile_append2) auto
  then have t: "takeWhile (\<lambda>c. c \<noteq> CHR ''.'') (rev e @ CHR ''.'' # rev x) = rev e"
    by simp
  show ?thesis
    using assms(1,3) by (simp add: stem_of_name_def t Let_def)
qed

lemma stem_of_py: "x \<noteq> [] \<Longrightarrow> stem_of (d @ [x @ ''.py'']) = x"
  using stem_of_name_ext [of x "''py''"] by (simp add: stem_of_def)

lemma stem_of_qmd: "x \<noteq> [] \<Longrightarrow> stem_of (d @ [x @ ''.qmd'']) = x"
  using stem_of_name_ext [of x "''qmd''"] by (simp add: stem_of_def)

lemma parent_of_child [simp]: "parent_of (d @ [n]) = d"
  by (simp add: parent_of_def)

lemma convert_result_path:
  "snd (convert_jupytext_to_qmd env w py_file output_dir) = Some q \<Longrightarrow>
     q = output_dir @ [stem_of py_file @ ''.qmd'']"
  by (auto simp: convert_jupytext_to_qmd_def manual_jupytext_to_qmd_def Let_def
      split: option.splits sum.splits if_splits prod.splits)

lemma convert_file_cases:
  "snd (convert_file env w f) = f
   \<or> (doc_type f = Jupytext \<and> snd (convert_file env w f) = converted f)"
proof (cases "doc_type f = Jupytext")
  case False
  then show ?thesis by (simp add: convert_file_def)
next
  case True
  obtain w' r where c: "convert_jupytext_to_qmd env w (doc_path f) (parent_of (doc_path f)) = (w', r)"
    by (cases "convert_jupytext_to_qmd env w (doc_path f) (parent_of (doc_path f))")
  show ?thesis
  proof (cases r)
    case None
    with c True show ?thesis by (simp add: convert_file_def)
  next
    case (Some q)
    with c have "q = parent_of (doc_path f) @ [stem_of (doc_path f) @ ''.qmd'']"
      using convert_result_path [of env w "doc_path f" "parent_of (doc_path f)" q] by simp
    with c Some True show ?thesis by (simp add: convert_file_def converted_def)
  qed
qed

lemma convert_files_pointwise:
  "convert_files env w fls = (w', fls') \<Longrightarrow>
     list_all2 (\<lambda>f f'. f' = f \<or> (doc_type f = Jupytext \<and> f' = converted f)) fls fls'"
proof (induction fls arbitrary: w w' fls')
  case Nil
  then show ?case by simp
next
  case (Cons f rest)
  obtain w1 f1 where 1: "convert_file env w f = (w1, f1)"
    by (cases "convert_file env w f")
  obtain w2 rest' where 2: "convert_files env w1 rest = (w2, rest')"
    by (cases "convert_files env w1 rest")
  from Cons.prems 1 2 have r: "fls' = f1 # rest'" by simp
  from convert_file_cases [of env w f] 1
  have "f1 = f \<or> (doc_type f = Jupytext \<and> f1 = converted f)" by simp
  with Cons.IH [OF 2] show ?case by (simp add: r)
qed

lemma two_positions:
  assumes "a \<in> set B" "b \<in> set D"
  shows "\<exists>i j. i < j \<and> j < length (A @ B @ C @ D) \<and> (A @ B @ C @ D) ! i = a
      \<and> (A @ B @ C @ D) ! j = b"
proof -
  from assms(1) obtain i where i: "i < length B" "B ! i = a"
    by (auto simp: in_set_conv_nth)
  from assms(2) obtain j where j: "j < length D" "D ! j = b"
    by (auto simp: in_set_conv_nth)
  let ?i = "length A + i" and ?j = "length A + length B + length C + j"
  have "?i < ?j" using i(1) by simp
  moreover have "?j < length (A @ B @ C @ D)" using j(1) by simp
  moreover have "(A @ B @ C @ D) ! ?i = a"
    using i by (simp add: nth_append)
  moreover have "(A @ B @ C @ D) ! ?j = b"
    using j by (simp add: nth_append)
  ultimately show ?thesis by blast
qed

lemma count_list_two:
  assumes "i < j" "j < length xs" "xs ! i = a" "xs ! j = a"
  shows "2 \<le> count_list xs a"
proof -
  have xs: "xs = take j xs @ xs ! j # drop (Suc j) xs"
    using assms(2) by (rule id_take_nth_drop)
  have "take j xs ! i = a"
    using assms(1,3) by simp
  moreover have "i < length (take j xs)"
    using assms(1,2) by simp
  ultimately have "a \<in> set (take j xs)"
    by (metis nth_mem)
  then have "1 \<le> count_list (take j xs) a"
    by (metis count_list_0_iff not_less_eq_eq le_0_eq One_nat_def)
  moreover have "count_list xs a
      = count_list (take j xs) a + count_list (xs ! j # drop (Suc j) xs) a"
    by (subst xs) (simp only: count_list_append)
  ultimately show ?thesis
    using assms(4) by simp
qed

lemma team_documents_members:
  assumes "d @ [x @ ''.qmd''] \<in> set (children fs d)" "d @ [x @ ''.py''] \<in> set (children fs d)"
    and "is_jupytext_file fs (d @ [x @ ''.py''])"
  shows "\<exists>i j. i < j \<and> j < length (team_documents fs d)
      \<and> team_documents fs d ! i = mk_document Quarto (d @ [x @ ''.qmd''])
      \<and> team_documents fs d ! j = mk_document Jupytext (d @ [x @ ''.py''])"
proof -
  have sq: "suffix ''.qmd'' (x @ ''.qmd'')" and sp: "suffix ''.py'' (x @ ''.py'')"
    by (simp_all add: suffix_def)
  have "d @ [x @ ''.qmd''] \<in> set (sort (glob fs d ''.qmd''))"
    using assms(1) sq by (simp add: glob_def)
  then have a: "mk_document Quarto (d @ [x @ ''.qmd''])
      \<in> set (map (mk_document Quarto) (sort (glob fs d ''.qmd'')))"
    by (simp only: set_map) (rule imageI)
  have "d @ [x @ ''.py''] \<in> set (filter (is_jupytext_file fs) (sort (glob fs d ''.py'')))"
    using assms(2,3) sp by (simp add: glob_def)
  then have b: "mk_document Jupytext (d @ [x @ ''.py''])
      \<in> set (map (mk_document Jupytext) (filter (is_jupytext_file fs) (sort (glob fs d ''.py''))))"
    by (simp only: set_map) (rule imageI)
  from a b show ?thesis
    unfolding team_documents_def by (rule two_positions)
qed

lemma team_documents_below:
  "f \<in> set (team_documents fs d) \<Longrightarrow> \<exists>n. doc_path f = d @ [n]"
  by (auto simp: team_documents_def glob_def mk_document_def dest: children_names)

lemma sidebar_files_below_root:
  "\<forall>f \<in> set fls. prefix root (doc_path f) \<Longrightarrow>
     sidebar_files root fls
       = Inr (map (\<lambda>f. ''          - '' @ str_rel (drop (length root) (doc_path f))) fls)"
  by (induction fls) (simp_all add: relative_to_def)


text \<open>
  Claim C10, amended. Let a team directory contain both \<open>X.qmd\<close> and a convertible
  \<open>X.py\<close> (\<open>X\<close> not empty). The conversion of \<open>X.py\<close>, whenever it returns a path,
  returns that same path \<open>X.qmd\<close>, and a successful manual conversion has replaced the
  text of that file. When the entry of \<open>X.py\<close> was converted (it is no longer among the
  documents of the team), two entries of the team hold the path \<open>X.qmd\<close>, and both the
  sidebar lines of the configuration and the links of the landing page for the team
  list that path twice.
\<close>

theorem same_stem_listed_twice:
  assumes "x \<noteq> []"
    and "d @ [x @ ''.qmd''] \<in> set (children fs d)"
    and "d @ [x @ ''.py''] \<in> set (children fs d)"
    and "is_jupytext_file fs (d @ [x @ ''.py''])"
    and "prefix root d"
    and "convert_files env w (team_documents fs d) = (w', fls')"
    and "mk_document Jupytext (d @ [x @ ''.py'']) \<notin> set fls'"
  shows "(\<forall>env0 w0 q. snd (convert_jupytext_to_qmd env0 w0 (d @ [x @ ''.py'']) d) = Some q
            \<longrightarrow> q = d @ [x @ ''.qmd''])
    \<and> (\<forall>w0 w1 q c. read_text (fs_of w0) (d @ [x @ ''.py'']) = Inr c
            \<and> manual_jupytext_to_qmd w0 (d @ [x @ ''.py'']) d = (w1, Some q)
            \<longrightarrow> read_text (fs_of w1) (d @ [x @ ''.qmd'']) = Inr (join ''\<newline>'' (qmd_lines x c)))
    \<and> (\<exists>i j. i < j \<and> j < length fls'
            \<and> fls' ! i = mk_document Quarto (d @ [x @ ''.qmd''])
            \<and> doc_path (fls' ! i) = d @ [x @ ''.qmd'']
            \<and> fls' ! j = converted (mk_document Jupytext (d @ [x @ ''.py'']))
            \<and> doc_path (fls' ! j) = d @ [x @ ''.qmd''])
    \<and> (\<exists>ls. sidebar_files root fls' = Inr ls
          \<and> 2 \<le> count_list ls
                (''          - '' @ str_rel (drop (length root) (d @ [x @ ''.qmd'']))))
    \<and> file_links root fls' = Inr (concat (map (document_link root) fls'))
    \<and> 2 \<le> count_list (map (document_link root) fls')
            (''- ['' @ x @ '']('' @ str_rel (drop (length root) (d @ [x @ ''.qmd''])) @ '')\<newline>'')"
proof -
  let ?fls = "team_documents fs d"
  let ?q = "mk_document Quarto (d @ [x @ ''.qmd''])"
  let ?p = "mk_document Jupytext (d @ [x @ ''.py''])"
  let ?line = "\<lambda>f. ''          - '' @ str_rel (drop (length root) (doc_path f))"
  from team_documents_members [OF assms(2,3,4)] obtain i j where
    ij: "i < j" "j < length ?fls" "?fls ! i = ?q" "?fls ! j = ?p"
    by blast
  note pw = convert_files_pointwise [OF assms(6)]
  then have len: "length fls' = length ?fls"
    by (simp add: list_all2_lengthD)
  have step: "fls' ! k = ?fls ! k \<or> (doc_type (?fls ! k) = Jupytext \<and> fls' ! k = converted (?fls ! k))"
    if "k < length ?fls" for k
    using pw that by (auto simp: list_all2_conv_all_nth)
  have qi: "fls' ! i = ?q"
    using step [of i] ij by (auto simp: mk_document_def)
  have "fls' ! j \<in> set fls'"
    using ij(2) len by simp
  with assms(7) have "fls' ! j \<noteq> ?p"
    by metis
  with step [of j] ij have pj: "fls' ! j = converted ?p"
    by auto
  have pq: "doc_path ?q = d @ [x @ ''.qmd'']"
    by (simp add: mk_document_def)
  have pp: "doc_path (converted ?p) = d @ [x @ ''.qmd'']"
    using assms(1) by (simp add: converted_def mk_document_def stem_of_py)
  have nq: "doc_name ?q = x"
    using assms(1) by (simp add: mk_document_def stem_of_qmd)
  have np: "doc_name (converted ?p) = x"
    using assms(1) by (simp add: converted_def mk_document_def stem_of_py)
  have jl: "j < length fls'"
    using ij(2) len by simp
  have 1: "\<exists>i j. i < j \<and> j < length fls'
            \<and> fls' ! i = ?q \<and> doc_path (fls' ! i) = d @ [x @ ''.qmd'']
            \<and> fls' ! j = converted ?p \<and> doc_path (fls' ! j) = d @ [x @ ''.qmd'']"
    using ij(1) jl qi pj pq pp by metis
  have below: "\<forall>f \<in> set fls'. prefix root (doc_path f)"
  proof
    fix f'
    assume "f' \<in> set fls'"
    then obtain k where k: "k < length fls'" "fls' ! k = f'"
      by (auto simp: in_set_conv_nth)
    then have kl: "k < length ?fls" by (simp add: len)
    then have "?fls ! k \<in> set ?fls" by simp
    then obtain n where n: "doc_path (?fls ! k) = d @ [n]"
      by (auto dest: team_documents_below)
    from step [OF kl] k(2) n have "\<exists>m. doc_path f' = d @ [m]"
      by (auto simp: converted_def)
    with assms(5) show "prefix root (doc_path f')"
      by (auto simp: prefix_def)
  qed
  have sf: "sidebar_files root fls' = Inr (map ?line fls')"
    using below by (rule sidebar_files_below_root)
  have "2 \<le> count_list (map ?line fls') (?line ?q)"
  proof (rule count_list_two [where i = i and j = j])
    show "i < j" by (rule ij(1))
    show "j < length (map ?line fls')" using jl by simp
    show "map ?line fls' ! i = ?line ?q"
      using ij(1) jl qi by simp
    show "map ?line fls' ! j = ?line ?q"
      using jl pj pp pq by simp
  qed
  with sf have 2: "\<exists>ls. sidebar_files root fls' = Inr ls
          \<and> 2 \<le> count_list ls
                (''          - '' @ str_rel (drop (length root) (d @ [x @ ''.qmd''])))"
    by (simp add: pq)
  have 3: "file_links root fls' = Inr (concat (map (document_link root) fls'))"
    using below by (rule file_links_below_root)
  have dl: "document_link root ?q
      = ''- ['' @ x @ '']('' @ str_rel (drop (length root) (d @ [x @ ''.qmd''])) @ '')\<newline>''"
    by (simp add: document_link_def nq pq)
  have dl': "document_link root (converted ?p) = document_link root ?q"
    by (simp add: document_link_def nq np pq pp)
  have "2 \<le> count_list (map (document_link root) fls') (document_link root ?q)"
  proof (rule count_list_two [where i = i and j = j])
    show "i < j" by (rule ij(1))
    show "j < length (map (document_link root) fls')" using jl by simp
    show "map (document_link root) fls' ! i = document_link root ?q"
      using ij(1) jl qi by simp
    show "map (document_link root) fls' ! j = document_link root ?q"
      using jl pj dl' by simp
  qed
  then have 4: "2 \<le> count_list (map (document_link root) fls')
            (''- ['' @ x @ '']('' @ str_rel (drop (length root) (d @ [x @ ''.qmd''])) @ '')\<newline>'')"
    by (simp only: dl)
  have st: "stem_of (d @ [x @ ''.py'']) = x"
    using assms(1) by (rule stem_of_py)
  have 5: "\<forall>env0 w0 q. snd (convert_jupytext_to_qmd env0 w0 (d @ [x @ ''.py'']) d) = Some q
            \<longrightarrow> q = d @ [x @ ''.qmd'']"
  proof (intro allI impI)
    fix env0 w0 q
    assume "snd (convert_jupytext_to_qmd env0 w0 (d @ [x @ ''.py'']) d) = Some q"
    then have "q = d @ [stem_of (d @ [x @ ''.py'']) @ ''.qmd'']"
      by (rule convert_result_path)
    then show "q = d @ [x @ ''.qmd'']"
      by (simp only: st)
  qed
  have 6: "\<forall>w0 w1 q c. read_text (fs_of w0) (d @ [x @ ''.py'']) = Inr c
            \<and> manual_jupytext_to_qmd w0 (d @ [x @ ''.py'']) d = (w1, Some q)
            \<longrightarrow> read_text (fs_of w1) (d @ [x @ ''.qmd'']) = Inr (join ''\<newline>'' (qmd_lines x c))"
  proof (intro allI impI)
    fix w0 w1 q c
    assume a: "read_text (fs_of w0) (d @ [x @ ''.py'']) = Inr c
            \<and> manual_jupytext_to_qmd w0 (d @ [x @ ''.py'']) d = (w1, Some q)"
    then have r: "read_text (fs_of w0) (d @ [x @ ''.py'']) = Inr c"
      and m: "manual_jupytext_to_qmd w0 (d @ [x @ ''.py'']) d = (w1, Some q)"
      by (rule conjunct1, rule conjunct2)
    note mr = manual_result [OF r m, unfolded st]
    from mr have q: "q = d @ [x @ ''.qmd'']"
      by (rule conjunct1)
    from mr have "read_text (fs_of w1) q = Inr (join ''\<newline>'' (qmd_lines x c))"
      by (rule conjunct2)
    then show "read_text (fs_of w1) (d @ [x @ ''.qmd'']) = Inr (join ''\<newline>'' (qmd_lines x c))"
      by (simp only: q)
  qed
  from 5 6 1 2 3 4 show ?thesis
    by (intro conjI)
qed



theorem same_stem_listed_twice_witness:
  "gamma_dir @ [''report.qmd''] \<in> set (children fs3 gamma_dir)
   \<and> gamma_dir @ [''report.py''] \<in> set (children fs3 gamma_dir)
   \<and> is_jupytext_file fs3 (gamma_dir @ [''report.py''])
   \<and> mk_document Jupytext (gamma_dir @ [''report.py''])
       \<notin> set (snd (convert_files env_none world3 (team_documents fs3 gamma_dir)))
   \<and> (\<exists>ls. sidebar_files [''repo'']
               (snd (convert_files env_none world3 (team_documents fs3 gamma_dir))) = Inr ls
         \<and> 2 \<le> count_list ls ''          - Team_Projects/gamma/report.qmd'')
   \<and> map doc_path (snd (convert_files env_none world3 (team_documents fs3 gamma_dir)))
       = [gamma_dir @ [''report.qmd''], gamma_dir @ [''report.qmd'']]
   \<and> count_list
        (split_nl (projr (read_text (fs_of (fst (projr (prepare_site env_none [''repo''] world3))))
                            [''repo'', ''_quarto.yml''])))
        ''          - Team_Projects/gamma/report.qmd'' = 2"
proof -
  let ?R = "convert_files env_none world3 (team_documents fs3 gamma_dir)"
  have x: "''report'' \<noteq> []"
    by simp
  have h1: "gamma_dir @ [''report'' @ ''.qmd''] \<in> set (children fs3 gamma_dir)"
    by code_simp
  have h2: "gamma_dir @ [''report'' @ ''.py''] \<in> set (children fs3 gamma_dir)"
    by code_simp
  have h3: "is_jupytext_file fs3 (gamma_dir @ [''report'' @ ''.py''])"
    by code_simp
  have h4: "prefix [''repo''] gamma_dir"
    by code_simp
  have h5: "?R = (fst ?R, snd ?R)"
    by (rule prod.collapse [symmetric])
  have h6: "mk_document Jupytext (gamma_dir @ [''report'' @ ''.py'']) \<notin> set (snd ?R)"
    by code_simp
  have e: "''          - '' @ str_rel (drop (length [''repo'']) (gamma_dir @ [''report'' @ ''.qmd'']))
      = ''          - Team_Projects/gamma/report.qmd''"
    by code_simp
  have a: "''report'' @ ''.qmd'' = ''report.qmd''" and b: "''report'' @ ''.py'' = ''report.py''"
    by simp_all
  from same_stem_listed_twice [OF x h1 h2 h3 h4 h5 h6]
  have "\<exists>ls. sidebar_files [''repo''] (snd ?R) = Inr ls
          \<and> 2 \<le> count_list ls
                (''          - '' @ str_rel (drop (length [''repo''])
                   (gamma_dir @ [''report'' @ ''.qmd''])))"
    by (elim conjE)
  then have c: "\<exists>ls. sidebar_files [''repo''] (snd ?R) = Inr ls
         \<and> 2 \<le> count_list ls ''          - Team_Projects/gamma/report.qmd''"
    by (simp only: e)
  have p: "map doc_path (snd ?R) = [gamma_dir @ [''report.qmd''], gamma_dir @ [''report.qmd'']]"
    by code_simp
  have y: "count_list
        (split_nl (projr (read_text (fs_of (fst (projr (prepare_site env_none [''repo''] world3))))
                            [''repo'', ''_quarto.yml''])))
        ''          - Team_Projects/gamma/report.qmd'' = 2"
    by code_simp
  note g1 = h1 [unfolded a] and g2 = h2 [unfolded b] and g3 = h3 [unfolded b]
    and g6 = h6 [unfolded b]
  from g1 g2 g3 g6 c p y show ?thesis
    by (intro conjI)
qed


text \<open>The claim as it was stated has no condition on the conversion. With a converter
  that is found and fails, the run reaches the render step with the two entries on
  their distinct paths, \<open>report.qmd\<close> as it was, and the path once in the
  configuration.\<close>

theorem same_stem_counterexample:
  "gamma_dir @ [''report.qmd''] \<in> set (children fs3 gamma_dir)
   \<and> gamma_dir @ [''report.py''] \<in> set (children fs3 gamma_dir)
   \<and> is_jupytext_file fs3 (gamma_dir @ [''report.py''])
   \<and> \<not> isl (prepare_site (env_with failing_tool) [''repo''] world3)
   \<and> map (\<lambda>t. map doc_path (files t))
        (snd (projr (prepare_site (env_with failing_tool) [''repo''] world3)))
       = [[gamma_dir @ [''report.qmd''], gamma_dir @ [''report.py'']]]
   \<and> read_text (fs_of (fst (projr (prepare_site (env_with failing_tool) [''repo''] world3))))
        (gamma_dir @ [''report.qmd'']) = Inr ''old report''
   \<and> count_list
        (split_nl (projr (read_text
           (fs_of (fst (projr (prepare_site (env_with failing_tool) [''repo''] world3))))
           [''repo'', ''_quarto.yml''])))
        ''          - Team_Projects/gamma/report.qmd'' = 1"
proof -
  have 1: "gamma_dir @ [''report.qmd''] \<in> set (children fs3 gamma_dir)"
    by code_simp
  have 2: "gamma_dir @ [''report.py''] \<in> set (children fs3 gamma_dir)"
    by code_simp
  have 3: "is_jupytext_file fs3 (gamma_dir @ [''report.py''])"
    by code_simp
  have 4: "\<not> isl (prepare_site (env_with failing_tool) [''repo''] world3)"
    by code_simp
  have 5: "map (\<lambda>t. map doc_path (files t))
        (snd (projr (prepare_site (env_with failing_tool) [''repo''] world3)))
       = [[gamma_dir @ [''report.qmd''], gamma_dir @ [''report.py'']]]"
    by code_simp
  have 6: "read_text (fs_of (fst (projr (prepare_site (env_with failing_tool) [''repo''] world3))))
        (gamma_dir @ [''report.qmd'']) = Inr ''old report''"
    by code_simp
  have 7: "count_list
        (split_nl (projr (read_text
           (fs_of (fst (projr (prepare_site (env_with failing_tool) [''repo''] world3))))
           [''repo'', ''_quarto.yml''])))
        ''          - Team_Projects/gamma/report.qmd'' = 1"
    by code_simp
  from 1 2 3 4 5 6 7 show ?thesis
    by (intro conjI)
qed

subsection \<open>The convertibility predicate\<close>

text \<open>
  Claim C2. A \<open>.py\<close> file is classified as convertible if and only if reading it
  succeeds, the delimiter token \<open># ---\<close> appears within the first 500 characters of
  its text and the marker token \<open>jupytext:\<close> appears within the first 1000 characters;
  when reading raises, the answer is \<open>False\<close> and no error comes out (the result is a
  plain truth value).
\<close>

theorem is_jupytext_file_iff:
  "is_jupytext_file fs py_file =
     (case read_text fs py_file of
        Inl e \<Rightarrow> False
      | Inr content \<Rightarrow>
          appears_within ''# ---'' 500 content \<and> appears_within ''jupytext:'' 1000 content)"
  by (simp add: is_jupytext_file_def contains_take_iff split: sum.split)

end
